theory Spec2Isabelle
  imports Complex_Main "HOL-Library.Word" "HOL-Library.Log_Nat"
begin

section \<open>Go primitives\<close>

text \<open>
  Run-time panics of the Go program are values of type \<open>error\<close>; a function that can
  panic returns \<open>error + 'a\<close>.  \<open>UnspecifiedConversion\<close> stands for the conversion to
  \<open>uint8\<close> of a float64 that is NaN or whose integer part is outside 0..255: Go leaves
  the result implementation-dependent, so the model does not pick one.

  Go's \<open>int\<close> is modelled by \<open>int\<close>: every integer expression of the modelled functions
  is bounded by its inputs (no sum or product leaves the 64-bit range for inputs inside
  it).  The operators \<open>%\<close> and \<open>/\<close> truncate towards zero: \<open>go_rem\<close> and \<open>go_quot\<close>.

  A finite \<open>float64\<close> is modelled by the \<open>real\<close> it denotes; the places where the
  program can produce an infinity or a NaN (a division by zero) are separate branches of
  the model.  \<open>round_float64\<close> is the rounding of IEEE 754 binary64 arithmetic: to the
  nearest number with 53 significant bits, ties to the even significand, with the
  fixed spacing \<open>2 ^ -1074\<close> below \<open>2 ^ -1022\<close>.  Values of magnitude \<open>2 ^ 1024\<close> and
  above, which round to an infinity, do not arise from 64-bit integers and 8-bit
  channels.
  \<^item> \<open>BayerDithering\<close> rounds each operation on its own: the conversion of the palette
    size, the quotient, the product and the three sums (no fused multiply-add).
  \<^item> A Bayer coefficient is a table entry below 64 divided by 4, 16 or 64, minus one
    half; all of these are binary64 numbers, so no rounding takes place.
  \<^item> A colour distance is the square root of an integer below \<open>2 ^ 18\<close>, and the
    correctly rounded square root is strictly monotone on these, so \<open>d < minD\<close> holds
    for the float64 values exactly when it holds for the real ones.
  \<^item> A channel sum of a bucket is an integer (exact below \<open>2 ^ 53\<close>), and the integer
    part of the rounded quotient is the one of the exact quotient for any bucket of
    fewer than \<open>2 ^ 45\<close> pixels.
\<close>

datatype error = DivideByZero | IndexOutOfRange | UnspecifiedConversion | NegativeDimensions

definition go_rem :: "int \<Rightarrow> int \<Rightarrow> int" where
  "go_rem a b = sgn a * (\<bar>a\<bar> mod \<bar>b\<bar>)"

definition go_quot :: "int \<Rightarrow> int \<Rightarrow> int" where
  "go_quot a b = sgn a * sgn b * (\<bar>a\<bar> div \<bar>b\<bar>)"

text \<open>\<open>pow2 e\<close> is the power of two with the integer exponent \<open>e\<close>.\<close>

definition pow2 :: "int \<Rightarrow> real" where
  "pow2 e = (if 0 \<le> e then 2 ^ nat e else 1 / 2 ^ nat (- e))"

definition round_half_even :: "real \<Rightarrow> int" where
  "round_half_even v =
    (let f = \<lfloor>v\<rfloor>; d = v - real_of_int f
     in if d < 1 / 2 then f else if 1 / 2 < d then f + 1 else if even f then f else f + 1)"

text \<open>
  For \<open>2 ^ e \<le> \<bar>x\<bar> < 2 ^ (e + 1)\<close> the integer \<open>m\<close> has \<open>e + 1075\<close> bits, so the spacing
  \<open>u\<close> of the binary64 numbers around \<open>x\<close> is \<open>2 ^ (e - 52)\<close>, and \<open>2 ^ -1074\<close> for the
  subnormal numbers; \<open>x\<close> is rounded to a multiple of \<open>u\<close>.
\<close>

definition round_float64 :: "real \<Rightarrow> real" where
  "round_float64 x =
    (let m = \<lfloor>\<bar>x\<bar> * pow2 1074\<rfloor>;
         u = pow2 (max (bitlen m - 1127) (- 1074))
     in real_of_int (round_half_even (x / u)) * u)"

text \<open>\<open>uint8(v)\<close> for a float64 \<open>v\<close>: the fraction is discarded (truncation towards zero).\<close>

definition uint8_of_float64 :: "real \<Rightarrow> error + 8 word" where
  "uint8_of_float64 v =
    (let t = (if 0 \<le> v then \<lfloor>v\<rfloor> else \<lceil>v\<rceil>)
     in if 0 \<le> t \<and> t \<le> 255 then Inr (word_of_int t) else Inl UnspecifiedConversion)"

definition index_at :: "'a list \<Rightarrow> int \<Rightarrow> error + 'a" where
  "index_at xs i = (if 0 \<le> i \<and> i < int (length xs) then Inr (xs ! nat i) else Inl IndexOutOfRange)"

section \<open>Bayer matrices\<close>

definition bayerMat2 :: "real list" where
  "bayerMat2 = [0, 2, 3, 1]"

definition bayerMat4 :: "real list" where
  "bayerMat4 =
    [0, 8, 2, 10,
     12, 4, 14, 6,
     3, 11, 1, 9,
     15, 7, 13, 5]"

definition bayerMat8 :: "real list" where
  "bayerMat8 =
    [0, 32, 8, 40, 2, 34, 10, 42,
     48, 16, 56, 24, 50, 18, 58, 26,
     12, 44, 4, 36, 14, 46, 6, 38,
     60, 28, 52, 20, 62, 30, 54, 22,
     3, 35, 11, 43, 1, 33, 9, 41,
     51, 19, 59, 27, 49, 17, 57, 25,
     15, 47, 7, 39, 13, 45, 5, 37,
     63, 31, 55, 23, 61, 29, 53, 21]"

text \<open>The \<open>switch\<close> of \<open>BayerCoefficient\<close>: the array literal of each case.\<close>

definition bayerMat :: "int \<Rightarrow> real list" where
  "bayerMat n = (if n = 2 then bayerMat2 else if n = 4 then bayerMat4 else bayerMat8)"

definition BayerCoefficient :: "int \<Rightarrow> int \<Rightarrow> int \<Rightarrow> error + real" where
  "BayerCoefficient x y bayerMatSize =
    (let n = (if bayerMatSize \<noteq> 2 \<and> bayerMatSize \<noteq> 4 \<and> bayerMatSize \<noteq> 8
              then 8 else bayerMatSize);
         i = go_rem y n * n + go_rem x n
     in case index_at (bayerMat n) i of
          Inl e \<Rightarrow> Inl e
        | Inr coef \<Rightarrow> Inr (coef / real_of_int (n * n) - 0.5))"

section \<open>General functions\<close>

definition ClampU8 :: "8 word \<Rightarrow> 8 word \<Rightarrow> 8 word \<Rightarrow> 8 word" where
  "ClampU8 x low high = (if x < low then low else if x > high then high else x)"

definition ClampF64 :: "real \<Rightarrow> real \<Rightarrow> real \<Rightarrow> real" where
  "ClampF64 x low high = (if x < low then low else if x > high then high else x)"

definition ClampBelowInt :: "int \<Rightarrow> int \<Rightarrow> int" where
  "ClampBelowInt x low = (if x < low then low else x)"

definition ClampAboveInt :: "int \<Rightarrow> int \<Rightarrow> int" where
  "ClampAboveInt x high = (if x > high then high else x)"

section \<open>Colours and images\<close>

text \<open>
  \<open>color.RGBA\<close> is four \<open>uint8\<close> channels.  An \<open>image.Image\<close> is read through its
  bounds and through \<open>At(x, y).RGBA()\<close>, which yields four \<open>uint32\<close> values.
\<close>

record RGBA =
  R :: "8 word"
  G :: "8 word"
  B :: "8 word"
  A :: "8 word"

record Rectangle =
  MinX :: int
  MinY :: int
  MaxX :: int
  MaxY :: int

record Image =
  Bounds :: Rectangle
  AtRGBA :: "int \<Rightarrow> int \<Rightarrow> 32 word \<times> 32 word \<times> 32 word \<times> 32 word"

text \<open>
  The two nested \<open>for\<close> loops over the bounds (rows outside, columns inside) visit the
  points of \<open>rasterPoints\<close> in this order; each loop below recurses over that list.
\<close>

definition rasterPoints :: "Rectangle \<Rightarrow> (int \<times> int) list" where
  "rasterPoints r =
    concat (map (\<lambda>y. map (\<lambda>x. (x, y)) [MinX r..MaxX r - 1]) [MinY r..MaxY r - 1])"

definition PixelColor :: "Image \<Rightarrow> int \<Rightarrow> int \<Rightarrow> RGBA" where
  "PixelColor img x y =
    (case AtRGBA img x y of (r, g, b, a) \<Rightarrow>
      \<lparr>R = ucast r, G = ucast g, B = ucast b, A = ucast a\<rparr>)"

text \<open>
  The image \<open>image.NewRGBA\<close> allocates: its rectangle and its pixel store, here indexed
  by the point instead of the byte offset (inside the rectangle the offset of a point is
  unique).  \<open>Writes\<close> is a ghost counter of the calls of \<open>Set\<close> that stored a pixel.
\<close>

record RGBAImage =
  Rect :: Rectangle
  Pix :: "int \<times> int \<Rightarrow> RGBA"
  Writes :: "int \<times> int \<Rightarrow> nat"

definition NewRGBA :: "Rectangle \<Rightarrow> error + RGBAImage" where
  "NewRGBA r =
    (if MaxX r - MinX r < 0 \<or> MaxY r - MinY r < 0 then Inl NegativeDimensions
     else Inr \<lparr>Rect = r, Pix = (\<lambda>p. \<lparr>R = 0, G = 0, B = 0, A = 0\<rparr>), Writes = (\<lambda>p. 0)\<rparr>)"

definition inRect :: "Rectangle \<Rightarrow> int \<Rightarrow> int \<Rightarrow> bool" where
  "inRect r x y = (MinX r \<le> x \<and> x < MaxX r \<and> MinY r \<le> y \<and> y < MaxY r)"

definition Set :: "RGBAImage \<Rightarrow> int \<Rightarrow> int \<Rightarrow> RGBA \<Rightarrow> RGBAImage" where
  "Set p x y c =
    (if \<not> inRect (Rect p) x y then p
     else p\<lparr>Pix := (Pix p)((x, y) := c), Writes := (Writes p)((x, y) := Suc (Writes p (x, y)))\<rparr>)"

section \<open>Colour manipulation\<close>

definition ColorDistance :: "RGBA \<Rightarrow> RGBA \<Rightarrow> real" where
  "ColorDistance c1 c2 =
    (let dr = real (unat (R c1)) - real (unat (R c2));
         dg = real (unat (G c1)) - real (unat (G c2));
         db = real (unat (B c1)) - real (unat (B c2))
     in sqrt (dr * dr + dg * dg + db * db))"

text \<open>The channel sums are \<open>uint8\<close> additions: they wrap before \<open>ClampU8\<close> sees them.\<close>

definition Add :: "RGBA \<Rightarrow> RGBA \<Rightarrow> RGBA" where
  "Add c1 c2 =
    \<lparr>R = ClampU8 (R c1 + R c2) 0 255,
     G = ClampU8 (G c1 + G c2) 0 255,
     B = ClampU8 (B c1 + B c2) 0 255,
     A = 255\<rparr>"

section \<open>Nearest palette colour\<close>

text \<open>
  The loop of \<open>NearestColor\<close> over \<open>palette[1]\<close>, \<open>palette[2]\<close>, ... with its state
  \<open>(nearest, minD)\<close>; \<open>palette[0]\<close> panics for an empty palette.
\<close>

primrec nearestLoop :: "RGBA \<Rightarrow> RGBA list \<Rightarrow> RGBA \<times> real \<Rightarrow> RGBA \<times> real" where
  "nearestLoop c [] st = st"
| "nearestLoop c (p # ps) st =
    (let d = ColorDistance c p
     in if d < snd st then nearestLoop c ps (p, d) else nearestLoop c ps st)"

definition NearestColor :: "RGBA \<Rightarrow> RGBA list \<Rightarrow> error + RGBA" where
  "NearestColor c palette =
    (case palette of
       [] \<Rightarrow> Inl IndexOutOfRange
     | p0 # rest \<Rightarrow> Inr (fst (nearestLoop c rest (p0, ColorDistance c p0))))"

section \<open>Dithering\<close>

text \<open>
  \<open>255. / float64(paletteSize)\<close> is \<open>+Inf\<close> for a palette size of zero; the offset is then
  \<open>+Inf\<close>, \<open>-Inf\<close> or (for a zero coefficient) NaN, which \<open>ClampF64\<close> turns into 255, 0 or
  leaves NaN.  Otherwise every operation yields a finite float64.
\<close>

definition BayerDithering :: "RGBA \<Rightarrow> int \<Rightarrow> int \<Rightarrow> int \<Rightarrow> int \<Rightarrow> error + RGBA" where
  "BayerDithering c x y paletteSize bayerMatSize =
    (case BayerCoefficient x y bayerMatSize of
       Inl e \<Rightarrow> Inl e
     | Inr coef \<Rightarrow>
        (let n = round_float64 (real_of_int paletteSize)
         in if n = 0 then
              (if coef = 0 then Inl UnspecifiedConversion
               else if 0 < coef then Inr \<lparr>R = 255, G = 255, B = 255, A = 255\<rparr>
               else Inr \<lparr>R = 0, G = 0, B = 0, A = 255\<rparr>)
            else
              (let R' = round_float64 (255 / n);
                   k = round_float64 (R' * coef);
                   r = round_float64 (real (unat (R c)) + k);
                   g = round_float64 (real (unat (G c)) + k);
                   b = round_float64 (real (unat (B c)) + k)
               in case uint8_of_float64 (ClampF64 r 0 255) of
                    Inl e \<Rightarrow> Inl e
                  | Inr r8 \<Rightarrow>
                     (case uint8_of_float64 (ClampF64 g 0 255) of
                        Inl e \<Rightarrow> Inl e
                      | Inr g8 \<Rightarrow>
                         (case uint8_of_float64 (ClampF64 b 0 255) of
                            Inl e \<Rightarrow> Inl e
                          | Inr b8 \<Rightarrow> Inr \<lparr>R = r8, G = g8, B = b8, A = 255\<rparr>)))))"

section \<open>Palette\<close>

text \<open>
  \<open>sort.SliceStable\<close> with \<open>pixels[i].R < pixels[j].R\<close>: ascending in the red channel,
  pixels of equal red value in raster order.  \<open>sort_key\<close> is this stable sort.
\<close>

definition RedSortedImagePixels :: "Image \<Rightarrow> RGBA list" where
  "RedSortedImagePixels img =
    sort_key R (map (\<lambda>(x, y). PixelColor img x y) (rasterPoints (Bounds img)))"

text \<open>\<open>len(pixels)\<close> in \<open>PaletteFromImage\<close>.\<close>

definition pixelCount :: "Image \<Rightarrow> int" where
  "pixelCount img = int (length (RedSortedImagePixels img))"

primrec meanLoop :: "RGBA list \<Rightarrow> int list \<Rightarrow> real \<times> real \<times> real \<Rightarrow> error + real \<times> real \<times> real" where
  "meanLoop pixels [] acc = Inr acc"
| "meanLoop pixels (j # js) acc =
    (case index_at pixels j of
       Inl e \<Rightarrow> Inl e
     | Inr p \<Rightarrow>
        (case acc of (r, g, b) \<Rightarrow>
          meanLoop pixels js
            (r + real (unat (R p)), g + real (unat (G p)), b + real (unat (B p)))))"

text \<open>
  With \<open>begin = end\<close> the three sums are zero and \<open>0. / 0.\<close> is NaN; with \<open>end < begin\<close>
  the loop does not run either and the quotients are (negative) zero.
\<close>

definition MeanColorOfRange :: "RGBA list \<Rightarrow> int \<Rightarrow> int \<Rightarrow> error + RGBA" where
  "MeanColorOfRange pixels begin end =
    (case meanLoop pixels [begin..end - 1] (0, 0, 0) of
       Inl e \<Rightarrow> Inl e
     | Inr (r, g, b) \<Rightarrow>
        (let n = real_of_int (end - begin)
         in if n = 0 then Inl UnspecifiedConversion
            else
              (case uint8_of_float64 (r / n) of
                 Inl e \<Rightarrow> Inl e
               | Inr r8 \<Rightarrow>
                  (case uint8_of_float64 (g / n) of
                     Inl e \<Rightarrow> Inl e
                   | Inr g8 \<Rightarrow>
                      (case uint8_of_float64 (b / n) of
                         Inl e \<Rightarrow> Inl e
                       | Inr b8 \<Rightarrow> Inr \<lparr>R = r8, G = g8, B = b8, A = 255\<rparr>)))))"

primrec paletteLoop :: "RGBA list \<Rightarrow> int \<Rightarrow> int list \<Rightarrow> RGBA list \<Rightarrow> error + RGBA list" where
  "paletteLoop pixels bucketSize [] palette = Inr palette"
| "paletteLoop pixels bucketSize (i # rest) palette =
    (let begin = i * bucketSize;
         end = ClampAboveInt (begin + bucketSize) (int (length pixels))
     in case MeanColorOfRange pixels begin end of
          Inl e \<Rightarrow> Inl e
        | Inr c \<Rightarrow> paletteLoop pixels bucketSize rest (palette @ [c]))"

definition PaletteFromImage :: "Image \<Rightarrow> int \<Rightarrow> error + RGBA list" where
  "PaletteFromImage img paletteMaxSize =
    (let paletteMaxSize' = ClampBelowInt paletteMaxSize 2;
         pixels = RedSortedImagePixels img;
         estimatedPaletteSize = ClampAboveInt paletteMaxSize' (int (length pixels))
     in if estimatedPaletteSize = 0 then Inl DivideByZero
        else
          (let bucketSize = go_quot (int (length pixels)) estimatedPaletteSize
           in paletteLoop pixels bucketSize [0..estimatedPaletteSize - 1] []))"

section \<open>The pipeline\<close>

primrec pixelLoop :: "Image \<Rightarrow> RGBA list \<Rightarrow> int \<Rightarrow> (int \<times> int) list \<Rightarrow> RGBAImage \<Rightarrow> error + RGBAImage" where
  "pixelLoop img palette bayerMatSize [] outImage = Inr outImage"
| "pixelLoop img palette bayerMatSize (p # ps) outImage =
    (case p of (x, y) \<Rightarrow>
      (let c = PixelColor img x y
       in case BayerDithering c x y (int (length palette)) bayerMatSize of
            Inl e \<Rightarrow> Inl e
          | Inr ditheredColor \<Rightarrow>
             (case NearestColor ditheredColor palette of
                Inl e \<Rightarrow> Inl e
              | Inr outColor \<Rightarrow>
                 pixelLoop img palette bayerMatSize ps (Set outImage x y outColor))))"

definition QuantizeImage :: "Image \<Rightarrow> int \<Rightarrow> int \<Rightarrow> error + RGBAImage" where
  "QuantizeImage img paletteMaxSize bayerMatSize =
    (case PaletteFromImage img paletteMaxSize of
       Inl e \<Rightarrow> Inl e
     | Inr palette \<Rightarrow>
        (case NewRGBA (Bounds img) of
           Inl e \<Rightarrow> Inl e
         | Inr outImage \<Rightarrow>
            pixelLoop img palette bayerMatSize (rasterPoints (Bounds img)) outImage))"

section \<open>Sample inputs\<close>

definition black :: RGBA where
  "black = \<lparr>R = 0, G = 0, B = 0, A = 255\<rparr>"

definition white :: RGBA where
  "white = \<lparr>R = 255, G = 255, B = 255, A = 255\<rparr>"

text \<open>An image without pixels, as \<open>image.NewRGBA(image.Rect(0, 0, 0, 0))\<close> is.\<close>

definition emptyImage :: Image where
  "emptyImage =
    \<lparr>Bounds = \<lparr>MinX = 0, MinY = 0, MaxX = 0, MaxY = 0\<rparr>,
     AtRGBA = (\<lambda>x y. (0, 0, 0, 0))\<rparr>"

text \<open>One opaque black pixel at \<open>(-1, -1)\<close>: the bounds of a Go image need not start at 0.\<close>

definition shiftedImage :: Image where
  "shiftedImage =
    \<lparr>Bounds = \<lparr>MinX = - 1, MinY = - 1, MaxX = 0, MaxY = 0\<rparr>,
     AtRGBA = (\<lambda>x y. (0, 0, 0, 0xFFFF))\<rparr>"

text \<open>A row of five opaque pixels: four black ones, then a white one.\<close>

definition fiveImage :: Image where
  "fiveImage =
    \<lparr>Bounds = \<lparr>MinX = 0, MinY = 0, MaxX = 5, MaxY = 1\<rparr>,
     AtRGBA = (\<lambda>x y. if x = 4 then (0xFFFF, 0xFFFF, 0xFFFF, 0xFFFF) else (0, 0, 0, 0xFFFF))\<rparr>"

text \<open>A row of two opaque pixels: a black one, then a white one.\<close>

definition twoImage :: Image where
  "twoImage =
    \<lparr>Bounds = \<lparr>MinX = 0, MinY = 0, MaxX = 2, MaxY = 1\<rparr>,
     AtRGBA = (\<lambda>x y. if x = 1 then (0xFFFF, 0xFFFF, 0xFFFF, 0xFFFF) else (0, 0, 0, 0xFFFF))\<rparr>"

section \<open>Bayer coefficients: lemmas\<close>

lemma go_rem_nonneg: "0 \<le> a \<Longrightarrow> 0 < b \<Longrightarrow> go_rem a b = a mod b"
  by (cases "a = 0") (simp_all add: go_rem_def)

lemma bayerMat2_entries: "list_all (\<lambda>v. 0 \<le> v \<and> v < 4) bayerMat2"
  by (simp add: bayerMat2_def)

lemma bayerMat4_entries: "list_all (\<lambda>v. 0 \<le> v \<and> v < 16) bayerMat4"
  by (simp add: bayerMat4_def)

lemma bayerMat8_entries: "list_all (\<lambda>v. 0 \<le> v \<and> v < 64) bayerMat8"
  by (simp add: bayerMat8_def)

lemma length_bayerMat: "m \<in> {2, 4, 8} \<Longrightarrow> int (length (bayerMat m)) = m * m"
  by (auto simp: bayerMat_def bayerMat2_def bayerMat4_def bayerMat8_def)

lemma bayerMat_entry:
  assumes "m \<in> {2, 4, 8}" and "k < length (bayerMat m)"
  shows "0 \<le> bayerMat m ! k \<and> bayerMat m ! k < real_of_int (m * m)"
proof -
  from assms(1) consider "m = 2" | "m = 4" | "m = 8" by auto
  then show ?thesis
  proof cases
    case 1
    with assms(2) bayerMat2_entries show ?thesis
      by (simp add: bayerMat_def list_all_length)
  next
    case 2
    with assms(2) bayerMat4_entries show ?thesis
      by (simp add: bayerMat_def list_all_length)
  next
    case 3
    with assms(2) bayerMat8_entries show ?thesis
      by (simp add: bayerMat_def list_all_length)
  qed
qed

lemma cell_index_range:
  fixes m :: int
  assumes "0 < m"
  shows "0 \<le> (y mod m) * m + x mod m" and "(y mod m) * m + x mod m < m * m"
proof -
  have y: "0 \<le> y mod m" "y mod m \<le> m - 1" and x: "0 \<le> x mod m" "x mod m < m"
    using assms by simp_all
  from y(1) assms have "0 \<le> (y mod m) * m" by simp
  with x(1) show "0 \<le> (y mod m) * m + x mod m" by simp
  from y(2) assms have "(y mod m) * m \<le> (m - 1) * m"
    by (intro mult_right_mono) simp_all
  also have "\<dots> = m * m - m" by (simp add: algebra_simps)
  finally show "(y mod m) * m + x mod m < m * m" using x(2) by simp
qed

lemma BayerCoefficient_supported:
  assumes "m \<in> {2, 4, 8}" and "0 \<le> x" and "0 \<le> y"
  shows "BayerCoefficient x y m =
    Inr (bayerMat m ! nat ((y mod m) * m + x mod m) / real_of_int (m * m) - 0.5)"
proof -
  from assms(1) have m: "0 < m" by auto
  have "int (length (bayerMat m)) = m * m" using assms(1) by (rule length_bayerMat)
  with cell_index_range [OF m, of y x] assms show ?thesis
    by (auto simp: BayerCoefficient_def go_rem_nonneg index_at_def Let_def)
qed

lemma BayerCoefficient_coerced:
  "m \<notin> {2, 4, 8} \<Longrightarrow> BayerCoefficient x y m = BayerCoefficient x y 8"
  by (simp add: BayerCoefficient_def)

lemma BayerCoefficient_returns:
  assumes "0 \<le> x" and "0 \<le> y"
  shows "\<exists>coef. BayerCoefficient x y m = Inr coef"
proof (cases "m \<in> {2, 4, 8}")
  case True
  with assms show ?thesis by (simp add: BayerCoefficient_supported)
next
  case False
  then have "BayerCoefficient x y m = BayerCoefficient x y 8" by (rule BayerCoefficient_coerced)
  with assms show ?thesis by (simp add: BayerCoefficient_supported)
qed

lemma BayerCoefficient_error:
  assumes "BayerCoefficient x y m = Inl e"
  shows "e = IndexOutOfRange \<and> (x < 0 \<or> y < 0)"
proof -
  have "e = IndexOutOfRange"
    using assms by (auto simp: BayerCoefficient_def index_at_def Let_def split: if_splits)
  moreover have "x < 0 \<or> y < 0"
  proof (rule ccontr)
    assume "\<not> (x < 0 \<or> y < 0)"
    then have "\<exists>coef. BayerCoefficient x y m = Inr coef"
      by (intro BayerCoefficient_returns) simp_all
    with assms show False by simp
  qed
  ultimately show ?thesis ..
qed

section \<open>Bayer coefficients: range, period and fallback\<close>

text \<open>
  Claim C5, as the code has it.  The claim is stated for every pair of integers; the
  code computes the index with Go's \<open>%\<close>, whose result is negative for a negative
  coordinate, and the array access then panics (\<open>BayerCoefficient_negative_panics\<close>).
  For a matrix order in \<open>{2, 4, 8}\<close> and coordinates \<open>0 \<le> x\<close>, \<open>0 \<le> y\<close> the function
  returns a coefficient \<open>c\<close> with \<open>-0.5 \<le> c < 0.5\<close>, and \<open>c\<close> is the entry of the
  order's table at index \<open>(y mod N) * N + (x mod N)\<close>, divided by \<open>N * N\<close>, minus \<open>0.5\<close>.
\<close>

theorem BayerCoefficient_range:
  assumes "m \<in> {2, 4, 8}" and "0 \<le> x" and "0 \<le> y"
  shows "\<exists>c. BayerCoefficient x y m = Inr c \<and> - (1 / 2) \<le> c \<and> c < 1 / 2 \<and>
    c = bayerMat m ! nat ((y mod m) * m + x mod m) / real_of_int (m * m) - 1 / 2"
proof -
  let ?k = "nat ((y mod m) * m + x mod m)"
  let ?v = "bayerMat m ! ?k"
  from assms(1) have m: "0 < m" by auto
  have len: "int (length (bayerMat m)) = m * m" using assms(1) by (rule length_bayerMat)
  with cell_index_range [OF m, of y x] have "?k < length (bayerMat m)" by linarith
  with assms(1) have v: "0 \<le> ?v" "?v < real_of_int (m * m)"
    using bayerMat_entry by blast+
  from m have mm: "0 < real_of_int (m * m)" by simp
  from v(1) mm have lo: "- (1 / 2) \<le> ?v / real_of_int (m * m) - 1 / 2" by simp
  from v(2) mm have "?v / real_of_int (m * m) < 1" by (simp add: divide_simps)
  then have hi: "?v / real_of_int (m * m) - 1 / 2 < 1 / 2" by linarith
  from BayerCoefficient_supported [OF assms] lo hi show ?thesis by simp
qed

theorem BayerCoefficient_range_witness:
  "(4::int) \<in> {2, 4, 8} \<and> (0::int) \<le> 5 \<and> (0::int) \<le> 6 \<and>
   BayerCoefficient 5 6 4 = Inr (3 / 16) \<and> - (1 / 2) \<le> (3 / 16 :: real) \<and> (3 / 16 :: real) < 1 / 2 \<and>
   (3 / 16 :: real) = bayerMat 4 ! nat ((6 mod 4) * 4 + 5 mod 4) / real_of_int (4 * 4) - 1 / 2"
  using BayerCoefficient_range [of 4 5 6]
  by (auto simp: bayerMat_def bayerMat4_def)

theorem BayerCoefficient_negative_panics:
  "BayerCoefficient (- 1) 0 2 = Inl IndexOutOfRange"
  by (simp add: BayerCoefficient_def go_rem_def index_at_def bayerMat_def bayerMat2_def)

text \<open>
  Claim C6, as the code has it.  With a negative coordinate the period fails even where
  both calls return: \<open>BayerCoefficient (-1) 1 2\<close> is \<open>0\<close> and \<open>BayerCoefficient 1 1 2\<close> is
  \<open>-0.25\<close> (\<open>BayerCoefficient_not_periodic_negative\<close>).  For a matrix order \<open>N\<close> in
  \<open>{2, 4, 8}\<close> and coordinates \<open>0 \<le> x\<close>, \<open>0 \<le> y\<close> the coefficient at \<open>(x + N, y)\<close> and the
  one at \<open>(x, y + N)\<close> both equal the coefficient at \<open>(x, y)\<close>.
\<close>

theorem BayerCoefficient_periodic:
  assumes "m \<in> {2, 4, 8}" and "0 \<le> x" and "0 \<le> y"
  shows "BayerCoefficient (x + m) y m = BayerCoefficient x y m \<and>
         BayerCoefficient x (y + m) m = BayerCoefficient x y m"
proof -
  from assms have "0 \<le> x + m" "0 \<le> y + m" by auto
  with assms show ?thesis by (simp add: BayerCoefficient_supported)
qed

theorem BayerCoefficient_periodic_witness:
  "(2::int) \<in> {2, 4, 8} \<and> (0::int) \<le> 1 \<and> (0::int) \<le> 3 \<and>
   BayerCoefficient (1 + 2) 3 2 = BayerCoefficient 1 3 2 \<and>
   BayerCoefficient 1 (3 + 2) 2 = BayerCoefficient 1 3 2 \<and>
   BayerCoefficient 1 3 2 = Inr (- (1 / 4))"
  using BayerCoefficient_periodic [of 2 1 3]
  by (simp add: BayerCoefficient_def go_rem_def index_at_def bayerMat_def bayerMat2_def)

theorem BayerCoefficient_not_periodic_negative:
  "BayerCoefficient (- 1 + 2) 1 2 = Inr (- (1 / 4)) \<and> BayerCoefficient (- 1) 1 2 = Inr 0"
  by (simp add: BayerCoefficient_def go_rem_def index_at_def bayerMat_def bayerMat2_def)

text \<open>
  Claim C7.  For every pair of integers \<open>(x, y)\<close> and every matrix order outside
  \<open>{2, 4, 8}\<close>, \<open>BayerCoefficient x y m\<close> is \<open>BayerCoefficient x y 8\<close>: the order is
  replaced by 8 and no error is raised for it (the outcome, value or panic, is the one
  of order 8).
\<close>

theorem BayerCoefficient_fallback:
  assumes "m \<notin> {2, 4, 8}"
  shows "BayerCoefficient x y m = BayerCoefficient x y 8"
  using assms by (simp add: BayerCoefficient_def)

theorem BayerCoefficient_fallback_witness:
  "(7::int) \<notin> {2, 4, 8} \<and> BayerCoefficient 3 5 7 = BayerCoefficient 3 5 8 \<and>
   BayerCoefficient 3 5 7 = Inr (- (5 / 64))"
  using BayerCoefficient_fallback [of 7 3 5]
  by (simp add: BayerCoefficient_def go_rem_def index_at_def bayerMat_def bayerMat8_def)

section \<open>Rounding to float64\<close>

lemma pow2_powr: "pow2 e = 2 powr real_of_int e"
proof (cases "0 \<le> e")
  case True
  then have "real_of_int e = real (nat e)" by simp
  then show ?thesis using True by (simp add: pow2_def powr_realpow del: of_nat_nat)
next
  case False
  then have "real_of_int e = - real (nat (- e))" by simp
  then have "2 powr real_of_int e = 1 / 2 powr real (nat (- e))"
    by (simp only: powr_minus_divide)
  then show ?thesis using False by (simp add: pow2_def powr_realpow del: of_nat_nat)
qed

lemma pow2_pos: "0 < pow2 e"
  by (simp add: pow2_powr)

lemma pow2_add: "pow2 (a + b) = pow2 a * pow2 b"
  by (simp add: pow2_powr powr_add)

lemma pow2_diff: "pow2 (a - b) = pow2 a / pow2 b"
  by (simp add: pow2_powr powr_diff)

lemma pow2_mono: "a \<le> b \<Longrightarrow> pow2 a \<le> pow2 b"
  by (simp add: pow2_powr)

lemma pow2_nat: "0 \<le> e \<Longrightarrow> pow2 e = real_of_int (2 ^ nat e)"
  by (simp add: pow2_def)

lemma round_half_even_of_int: "round_half_even (real_of_int k) = k"
  by (simp add: round_half_even_def)

lemma round_half_even_cases:
  "round_half_even v = \<lfloor>v\<rfloor> \<or> round_half_even v = \<lfloor>v\<rfloor> + 1"
  by (simp add: round_half_even_def Let_def)

lemma round_half_even_nonzero:
  assumes "1 \<le> \<bar>v\<bar>"
  shows "round_half_even v \<noteq> 0"
proof (cases "0 \<le> v")
  case True
  with assms have "1 \<le> v" by simp
  then have "1 \<le> \<lfloor>v\<rfloor>" by (simp only: le_floor_iff of_int_1)
  with round_half_even_cases [of v] show ?thesis by linarith
next
  case False
  with assms have v: "v \<le> - 1" by simp
  have f: "\<lfloor>v\<rfloor> \<le> - 1" using v by (simp add: floor_le_iff)
  show ?thesis
  proof (cases "\<lfloor>v\<rfloor> = - 1")
    case True
    have "real_of_int \<lfloor>v\<rfloor> \<le> v" by (rule of_int_floor_le)
    with True v have "v = - 1" by simp
    moreover have "\<lfloor>- 1 :: real\<rfloor> = - 1" by (simp add: floor_eq_iff)
    ultimately show ?thesis by (simp add: round_half_even_def)
  next
    case False
    with f have "\<lfloor>v\<rfloor> + 1 \<le> - 1" by linarith
    with f round_half_even_cases [of v] show ?thesis by linarith
  qed
qed

lemma bitlen_le:
  assumes "0 \<le> m" and "0 \<le> w" and "m < 2 ^ nat w"
  shows "bitlen m \<le> w"
proof -
  from assms(1,3) have "nat m < 2 ^ nat w"
    by (simp add: nat_less_iff)
  then have "floorlog 2 (nat m) \<le> nat w" by (intro floorlog_leI) simp_all
  with assms(2) show ?thesis by (simp add: bitlen_def)
qed

lemma round_float64_representable:
  assumes x: "x = real_of_int n * pow2 e" and n: "\<bar>n\<bar> < 2 ^ 53" and e: "- 1074 \<le> e"
  shows "round_float64 x = x"
proof -
  define m where "m = \<lfloor>\<bar>x\<bar> * pow2 1074\<rfloor>"
  define ue where "ue = max (bitlen m - 1127) (- 1074)"
  have "\<bar>x\<bar> * pow2 1074 = real_of_int \<bar>n\<bar> * pow2 (e + 1074)"
    using pow2_pos [of e] by (simp add: x pow2_add abs_mult)
  also have "\<dots> = real_of_int (\<bar>n\<bar> * 2 ^ nat (e + 1074))"
    using e by (simp add: pow2_nat)
  finally have m: "m = \<bar>n\<bar> * 2 ^ nat (e + 1074)"
    unfolding m_def by (simp only: floor_of_int)
  have "m < 2 ^ 53 * 2 ^ nat (e + 1074)"
    unfolding m using n by (intro mult_strict_right_mono) simp_all
  also have "\<dots> = 2 ^ nat (e + 1127)"
  proof -
    have "nat (e + 1127) = 53 + nat (e + 1074)" using e by simp
    then show ?thesis by (simp only: power_add)
  qed
  finally have "bitlen m \<le> e + 1127"
    using e by (intro bitlen_le) (simp_all add: m)
  with e have ue: "ue \<le> e" "- 1074 \<le> ue" by (simp_all add: ue_def)
  have "x / pow2 ue = real_of_int n * pow2 (e - ue)"
    by (simp add: x pow2_diff)
  also have "\<dots> = real_of_int (n * 2 ^ nat (e - ue))"
    using ue(1) by (simp add: pow2_nat)
  finally have "round_half_even (x / pow2 ue) = n * 2 ^ nat (e - ue)"
    by (simp only: round_half_even_of_int)
  then have "real_of_int (round_half_even (x / pow2 ue)) * pow2 ue
      = real_of_int n * pow2 (e - ue) * pow2 ue"
    using ue(1) by (simp add: pow2_nat)
  also have "\<dots> = x"
    using pow2_pos [of ue] by (simp add: x pow2_diff)
  finally show ?thesis
    by (simp add: round_float64_def Let_def m_def [symmetric] ue_def [symmetric])
qed

lemma round_float64_nonzero:
  assumes "1 \<le> \<bar>x\<bar>"
  shows "round_float64 x \<noteq> 0"
proof -
  define m where "m = \<lfloor>\<bar>x\<bar> * pow2 1074\<rfloor>"
  define b where "b = bitlen m"
  define ue where "ue = max (b - 1127) (- 1074)"
  have p: "pow2 1074 = real_of_int (2 ^ 1074)" by (simp add: pow2_def)
  from assms have "pow2 1074 \<le> \<bar>x\<bar> * pow2 1074"
    using pow2_pos [of 1074] by simp
  then have "(2::int) ^ 1074 \<le> m"
    unfolding m_def p by (simp only: le_floor_iff)
  then have m0: "0 < m" and big: "(2::int) ^ 1074 \<le> m"
    by (simp_all add: less_le_trans [of 0 "2 ^ 1074"])
  from bitlen_bounds [OF m0] have lo: "2 ^ nat (b - 1) \<le> m" and hi: "m < 2 ^ nat b"
    by (simp_all add: b_def)
  from big hi have "(2::int) ^ 1074 < 2 ^ nat b" by linarith
  have "1074 < nat b"
  proof (rule ccontr)
    assume "\<not> 1074 < nat b"
    then have "nat b \<le> 1074" by simp
    then have "(2::int) ^ nat b \<le> 2 ^ 1074" by (rule power_increasing) simp
    with \<open>(2::int) ^ 1074 < 2 ^ nat b\<close> show False by linarith
  qed
  then have b: "1075 \<le> b" by simp
  then have ue: "ue = b - 1127" by (simp add: ue_def)
  have "real_of_int m \<le> \<bar>x\<bar> * pow2 1074" by (simp add: m_def)
  moreover from lo have "real_of_int (2 ^ nat (b - 1)) \<le> real_of_int m"
    by (simp only: of_int_le_iff)
  moreover have "pow2 (b - 1) = real_of_int (2 ^ nat (b - 1))"
    using b by (simp add: pow2_nat)
  ultimately have "pow2 (b - 1) \<le> \<bar>x\<bar> * pow2 1074" by linarith
  then have "pow2 (b - 1) / pow2 1074 \<le> \<bar>x\<bar>"
    using pow2_pos [of 1074] by (simp add: pos_divide_le_eq)
  then have "pow2 (b - 1075) \<le> \<bar>x\<bar>"
    using pow2_diff [of "b - 1" 1074] by simp
  then have "pow2 (b - 1075) / pow2 ue \<le> \<bar>x\<bar> / pow2 ue"
    using pow2_pos [of ue] by (simp add: divide_right_mono)
  moreover have "pow2 (b - 1075) / pow2 ue = pow2 52"
    using pow2_diff [of "b - 1075" ue] by (simp add: ue)
  moreover have "1 \<le> pow2 52" by (simp add: pow2_def)
  ultimately have "1 \<le> \<bar>x\<bar> / pow2 ue" by linarith
  moreover have "\<bar>x / pow2 ue\<bar> = \<bar>x\<bar> / pow2 ue"
    using pow2_pos [of ue] by (simp add: abs_divide)
  ultimately have "1 \<le> \<bar>x / pow2 ue\<bar>" by (simp only:)
  then have "round_half_even (x / pow2 ue) \<noteq> 0" by (rule round_half_even_nonzero)
  with pow2_pos [of ue] show ?thesis
    by (simp add: round_float64_def Let_def m_def [symmetric] b_def [symmetric] ue_def [symmetric])
qed

text \<open>
  Inside a binade \<open>2 ^ e \<le> \<bar>x\<bar> < 2 ^ (e + 1)\<close> of the normal range, \<open>round_float64\<close>
  rounds \<open>x\<close> to the nearest multiple of \<open>2 ^ (e - 52)\<close>, ties to the even multiple;
  a number with at most 53 significant bits is left as it is.
\<close>

lemma round_float64_binade:
  assumes lo: "pow2 e \<le> \<bar>x\<bar>" and hi: "\<bar>x\<bar> < pow2 (e + 1)" and e: "- 1022 \<le> e"
  shows "round_float64 x = real_of_int (round_half_even (x / pow2 (e - 52))) * pow2 (e - 52)"
proof -
  define m where "m = \<lfloor>\<bar>x\<bar> * pow2 1074\<rfloor>"
  have p: "0 < pow2 1074" by (rule pow2_pos)
  from lo p have "pow2 e * pow2 1074 \<le> \<bar>x\<bar> * pow2 1074" by simp
  then have "pow2 (e + 1074) \<le> \<bar>x\<bar> * pow2 1074" by (simp only: pow2_add)
  moreover have "pow2 (e + 1074) = real_of_int (2 ^ nat (e + 1074))"
    using e by (intro pow2_nat) simp
  ultimately have "real_of_int (2 ^ nat (e + 1074)) \<le> \<bar>x\<bar> * pow2 1074" by simp
  then have m_lo: "2 ^ nat (e + 1074) \<le> m"
    unfolding m_def by (simp only: le_floor_iff)
  from hi p have "\<bar>x\<bar> * pow2 1074 < pow2 (e + 1) * pow2 1074" by simp
  moreover have "pow2 (e + 1075) = pow2 (e + 1) * pow2 1074"
  proof -
    have "e + 1075 = (e + 1) + 1074" by simp
    then show ?thesis by (simp only: pow2_add)
  qed
  ultimately have "\<bar>x\<bar> * pow2 1074 < pow2 (e + 1075)" by simp
  moreover have "pow2 (e + 1075) = real_of_int (2 ^ nat (e + 1075))"
    using e by (intro pow2_nat) simp
  ultimately have "\<bar>x\<bar> * pow2 1074 < real_of_int (2 ^ nat (e + 1075))" by simp
  then have m_hi: "m < 2 ^ nat (e + 1075)"
    unfolding m_def by (simp only: floor_less_iff)
  have "(0::int) < 2 ^ nat (e + 1074)" by simp
  with m_lo have m0: "0 < m" by linarith
  have up: "bitlen m \<le> e + 1075"
    using m0 m_hi e by (intro bitlen_le) simp_all
  have "e + 1074 < bitlen m"
  proof (rule ccontr)
    assume "\<not> e + 1074 < bitlen m"
    then have "nat (bitlen m) \<le> nat (e + 1074)" by simp
    then have "(2::int) ^ nat (bitlen m) \<le> 2 ^ nat (e + 1074)"
      by (rule power_increasing) simp
    moreover from bitlen_bounds [OF m0] have "m < 2 ^ nat (bitlen m)" by simp
    ultimately show False using m_lo by linarith
  qed
  with up have "bitlen m = e + 1075" by simp
  with e have "max (bitlen m - 1127) (- 1074) = e - 52" by simp
  then show ?thesis
    by (simp add: round_float64_def Let_def m_def [symmetric])
qed

lemma round_float64_dyadic:
  assumes "\<bar>n\<bar> < 2 ^ 53" and "k \<le> 1074"
  shows "round_float64 (real_of_int n / 2 ^ k) = real_of_int n / 2 ^ k"
proof (rule round_float64_representable [where n = n and e = "- int k"])
  show "real_of_int n / 2 ^ k = real_of_int n * pow2 (- int k)"
    by (simp add: pow2_def divide_inverse)
  show "\<bar>n\<bar> < 2 ^ 53" by (rule assms(1))
  show "- 1074 \<le> - int k" using assms(2) by simp
qed

lemma round_float64_of_int_nonzero:
  assumes "p \<noteq> 0"
  shows "round_float64 (real_of_int p) \<noteq> 0"
proof -
  from assms have "1 \<le> \<bar>p\<bar>" by simp
  then have "real_of_int 1 \<le> real_of_int \<bar>p\<bar>" by (simp only: of_int_le_iff)
  then have "1 \<le> \<bar>real_of_int p\<bar>" by simp
  then show ?thesis by (rule round_float64_nonzero)
qed

section \<open>Dithering: clamping\<close>

lemma ClampF64_range: "0 \<le> ClampF64 v 0 255 \<and> ClampF64 v 0 255 \<le> 255"
  by (simp add: ClampF64_def)

lemma ClampF64_less_256: "ClampF64 v 0 255 < 256"
  using ClampF64_range [of v] by simp

lemma uint8_of_float64_in_range:
  assumes "0 \<le> v" and "v \<le> 255"
  shows "uint8_of_float64 v = Inr (word_of_int \<lfloor>v\<rfloor>)"
proof -
  from assms(2) have "\<lfloor>v\<rfloor> \<le> 255" by (simp add: floor_le_iff)
  with assms(1) show ?thesis by (simp add: uint8_of_float64_def)
qed

lemma uint_uint8_floor:
  assumes "0 \<le> v" and "v \<le> 255"
  shows "uint (word_of_int \<lfloor>v\<rfloor> :: 8 word) = \<lfloor>v\<rfloor>"
proof -
  from assms(2) have "\<lfloor>v\<rfloor> \<le> 255" by (simp add: floor_le_iff)
  moreover from assms(1) have "0 \<le> \<lfloor>v\<rfloor>" by simp
  ultimately show ?thesis
    by (simp add: uint_word_of_int take_bit_int_eq_self)
qed

lemma uint_floor_ClampF64:
  "uint (word_of_int \<lfloor>ClampF64 v 0 255\<rfloor> :: 8 word) = \<lfloor>ClampF64 v 0 255\<rfloor>"
  using ClampF64_range [of v] by (simp add: uint_uint8_floor)

lemma uint8_of_ClampF64:
  "uint8_of_float64 (ClampF64 v 0 255) = Inr (word_of_int \<lfloor>ClampF64 v 0 255\<rfloor>)"
  using ClampF64_range [of v] by (simp add: uint8_of_float64_in_range)

lemma BayerDithering_value:
  assumes "paletteSize \<noteq> 0" and "BayerCoefficient x y m = Inr coef"
    and "k = round_float64 (round_float64 (255 / round_float64 (real_of_int paletteSize)) * coef)"
  shows "BayerDithering c x y paletteSize m =
    Inr \<lparr>R = word_of_int \<lfloor>ClampF64 (round_float64 (real (unat (R c)) + k)) 0 255\<rfloor>,
         G = word_of_int \<lfloor>ClampF64 (round_float64 (real (unat (G c)) + k)) 0 255\<rfloor>,
         B = word_of_int \<lfloor>ClampF64 (round_float64 (real (unat (B c)) + k)) 0 255\<rfloor>,
         A = 255\<rparr>"
  using assms round_float64_of_int_nonzero [of paletteSize]
  by (simp add: BayerDithering_def uint8_of_ClampF64 Let_def)

lemma BayerDithering_returns:
  assumes "paletteSize \<noteq> 0" and "0 \<le> x" and "0 \<le> y"
  shows "\<exists>d. BayerDithering c x y paletteSize m = Inr d"
proof -
  from assms(2,3) obtain coef where "BayerCoefficient x y m = Inr coef"
    using BayerCoefficient_returns by blast
  with assms(1) show ?thesis by (simp add: BayerDithering_value)
qed

text \<open>
  Claim C8.  Let the palette size be at least 1.  Whenever \<open>BayerDithering\<close> returns a
  colour \<open>d\<close>, each of its R, G, B channels is the integer part of the float
  \<open>ClampF64 (channel + k) 0 255\<close>, where the offset \<open>k\<close> is the float
  \<open>255 / paletteSize * coefficient\<close> and the sum is the float64 sum; the clamped value
  is in \<open>[0, 255]\<close> whatever the raw offset is, so the channel lies in \<open>0..255\<close>; the
  alpha channel of \<open>d\<close> is 255.  The conversion to \<open>uint8\<close> is never applied to a value
  outside its range, and the function returns a colour for all coordinates \<open>0 \<le> x\<close>,
  \<open>0 \<le> y\<close> (for a negative coordinate the table lookup of \<open>BayerCoefficient\<close> can panic
  before any channel is computed).
\<close>

theorem BayerDithering_clamped:
  assumes "1 \<le> paletteSize"
  shows "(\<forall>d. BayerDithering c x y paletteSize m = Inr d \<longrightarrow>
           (\<exists>coef k r g b. BayerCoefficient x y m = Inr coef \<and>
              k = round_float64 (round_float64 (255 / round_float64 (real_of_int paletteSize)) * coef) \<and>
              r = ClampF64 (round_float64 (real (unat (R c)) + k)) 0 255 \<and>
              g = ClampF64 (round_float64 (real (unat (G c)) + k)) 0 255 \<and>
              b = ClampF64 (round_float64 (real (unat (B c)) + k)) 0 255 \<and>
              0 \<le> r \<and> r \<le> 255 \<and> 0 \<le> g \<and> g \<le> 255 \<and> 0 \<le> b \<and> b \<le> 255 \<and>
              uint (R d) = \<lfloor>r\<rfloor> \<and> uint (G d) = \<lfloor>g\<rfloor> \<and> uint (B d) = \<lfloor>b\<rfloor>) \<and>
           0 \<le> uint (R d) \<and> uint (R d) \<le> 255 \<and>
           0 \<le> uint (G d) \<and> uint (G d) \<le> 255 \<and>
           0 \<le> uint (B d) \<and> uint (B d) \<le> 255 \<and>
           A d = 255) \<and>
         (0 \<le> x \<and> 0 \<le> y \<longrightarrow> (\<exists>d. BayerDithering c x y paletteSize m = Inr d)) \<and>
         BayerDithering c x y paletteSize m \<noteq> Inl UnspecifiedConversion"
proof (intro conjI allI impI)
  from assms have nz: "paletteSize \<noteq> 0" by simp
  show "BayerDithering c x y paletteSize m \<noteq> Inl UnspecifiedConversion"
  proof (cases "BayerCoefficient x y m")
    case (Inl e)
    then have "e = IndexOutOfRange" using BayerCoefficient_error by blast
    with Inl show ?thesis by (simp add: BayerDithering_def)
  next
    case (Inr coef)
    with nz show ?thesis by (simp add: BayerDithering_value)
  qed
  {
    assume "0 \<le> x \<and> 0 \<le> y"
    with nz show "\<exists>d. BayerDithering c x y paletteSize m = Inr d"
      by (simp add: BayerDithering_returns)
  }
  fix d
  assume d: "BayerDithering c x y paletteSize m = Inr d"
  then obtain coef where coef: "BayerCoefficient x y m = Inr coef"
    by (cases "BayerCoefficient x y m") (simp_all add: BayerDithering_def)
  define k where
    "k = round_float64 (round_float64 (255 / round_float64 (real_of_int paletteSize)) * coef)"
  from d BayerDithering_value [OF nz coef k_def, of c]
  have ch: "R d = word_of_int \<lfloor>ClampF64 (round_float64 (real (unat (R c)) + k)) 0 255\<rfloor>"
    "G d = word_of_int \<lfloor>ClampF64 (round_float64 (real (unat (G c)) + k)) 0 255\<rfloor>"
    "B d = word_of_int \<lfloor>ClampF64 (round_float64 (real (unat (B c)) + k)) 0 255\<rfloor>"
    and a: "A d = 255"
    by auto
  show "A d = 255" by (rule a)
  show "0 \<le> uint (R d)" "0 \<le> uint (G d)" "0 \<le> uint (B d)" by simp_all
  note fl = uint_floor_ClampF64 and le = ClampF64_less_256
  show "uint (R d) \<le> 255" "uint (G d) \<le> 255" "uint (B d) \<le> 255"
    by (simp_all add: ch fl le)
  show "\<exists>coef k r g b. BayerCoefficient x y m = Inr coef \<and>
      k = round_float64 (round_float64 (255 / round_float64 (real_of_int paletteSize)) * coef) \<and>
      r = ClampF64 (round_float64 (real (unat (R c)) + k)) 0 255 \<and>
      g = ClampF64 (round_float64 (real (unat (G c)) + k)) 0 255 \<and>
      b = ClampF64 (round_float64 (real (unat (B c)) + k)) 0 255 \<and>
      0 \<le> r \<and> r \<le> 255 \<and> 0 \<le> g \<and> g \<le> 255 \<and> 0 \<le> b \<and> b \<le> 255 \<and>
      uint (R d) = \<lfloor>r\<rfloor> \<and> uint (G d) = \<lfloor>g\<rfloor> \<and> uint (B d) = \<lfloor>b\<rfloor>"
    using coef ClampF64_range by (simp add: ch fl k_def)
qed

lemma round_float64_samples:
  "round_float64 0 = 0" "round_float64 2 = 2" "round_float64 255 = 255"
  "round_float64 (255 / 2) = 255 / 2" "round_float64 (255 / 8) = 255 / 8"
  "round_float64 (- (255 / 4)) = - (255 / 4)"
  "round_float64 (1279 / 8) = 1279 / 8" "round_float64 (2255 / 8) = 2255 / 8"
  "round_float64 (279 / 8) = 279 / 8"
  "round_float64 (257 / 4) = 257 / 4" "round_float64 (745 / 4) = 745 / 4"
  "round_float64 (- (243 / 4)) = - (243 / 4)"
  using round_float64_dyadic [of 0 0] round_float64_dyadic [of 2 0]
    round_float64_dyadic [of 255 0] round_float64_dyadic [of 255 1]
    round_float64_dyadic [of 255 3] round_float64_dyadic [of "- 255" 2]
    round_float64_dyadic [of 1279 3] round_float64_dyadic [of 2255 3]
    round_float64_dyadic [of 279 3] round_float64_dyadic [of 257 2]
    round_float64_dyadic [of 745 2] round_float64_dyadic [of "- 243" 2]
  by simp_all

theorem BayerDithering_clamped_witness:
  "(1::int) \<le> 2 \<and> (0::int) \<le> 0 \<and> (0::int) \<le> 1 \<and>
   BayerDithering \<lparr>R = 128, G = 250, B = 3, A = 77\<rparr> 0 1 2 2 =
     Inr \<lparr>R = 159, G = 255, B = 34, A = 255\<rparr> \<and>
   BayerDithering \<lparr>R = 128, G = 250, B = 3, A = 77\<rparr> 0 0 2 2 =
     Inr \<lparr>R = 64, G = 186, B = 0, A = 255\<rparr>"
  using BayerDithering_clamped [of 2 "\<lparr>R = 128, G = 250, B = 3, A = 77\<rparr>" 0 1 2]
  by (simp add: BayerDithering_def BayerCoefficient_def go_rem_def index_at_def bayerMat_def
      bayerMat2_def uint8_of_float64_def ClampF64_def round_float64_samples)

text \<open>
  For a palette of \<open>2 ^ 60\<close> colours the offset \<open>-255 / 2 ^ 61\<close> is below half the
  spacing of the float64 numbers at 128, 250 and 3: each float64 sum is the channel
  itself and the colour comes back unchanged.
\<close>

lemma BayerDithering_large_palette:
  "BayerDithering \<lparr>R = 128, G = 250, B = 3, A = 255\<rparr> 0 0 (2 ^ 60) 2 =
     Inr \<lparr>R = 128, G = 250, B = 3, A = 255\<rparr>"
proof -
  let ?c = "\<lparr>R = 128, G = 250, B = 3, A = 255\<rparr>"
  have n: "round_float64 (real_of_int (2 ^ 60)) = 2 ^ 60"
    using round_float64_representable [of "2 ^ 60" 1 60] by (simp add: pow2_def)
  have q: "round_float64 (255 / 2 ^ 60) = 255 / 2 ^ 60"
    using round_float64_dyadic [of 255 60] by simp
  have "255 / 2 ^ 60 * - (1 / 2) = - (255 / (2 ^ 61 :: real))" by simp
  moreover have "round_float64 (- (255 / 2 ^ 61)) = - (255 / 2 ^ 61)"
    using round_float64_dyadic [of "- 255" 61] by simp
  ultimately have k: "- (255 / 2 ^ 61) =
      round_float64 (round_float64 (255 / round_float64 (real_of_int (2 ^ 60))) * - (1 / 2))"
    by (simp only: n q)
  have c: "BayerCoefficient 0 0 2 = Inr (- (1 / 2))"
    by (simp add: BayerCoefficient_def go_rem_def index_at_def bayerMat_def bayerMat2_def)
  have nz: "(2 ^ 60 :: int) \<noteq> 0" by simp
  have r: "round_float64 (real (unat (R ?c)) + - (255 / 2 ^ 61)) = 128"
    by (subst round_float64_binade [where e = 6])
      (simp_all add: pow2_def round_half_even_def)
  have g: "round_float64 (real (unat (G ?c)) + - (255 / 2 ^ 61)) = 250"
    by (subst round_float64_binade [where e = 7])
      (simp_all add: pow2_def round_half_even_def)
  have b: "round_float64 (real (unat (B ?c)) + - (255 / 2 ^ 61)) = 3"
    by (subst round_float64_binade [where e = 1])
      (simp_all add: pow2_def round_half_even_def)
  show ?thesis
    unfolding BayerDithering_value [OF nz c k, of ?c] r g b
    by (simp add: ClampF64_def)
qed

section \<open>Nearest palette colour: first minimum\<close>

lemma nearestLoop_first_min:
  assumes "i < length pre" and "fst st = pre ! i" and "snd st = ColorDistance c (pre ! i)"
    and "\<forall>j<length pre. ColorDistance c (pre ! i) \<le> ColorDistance c (pre ! j)"
    and "\<forall>j<i. ColorDistance c (pre ! i) < ColorDistance c (pre ! j)"
  shows "\<exists>i'<length (pre @ ps). fst (nearestLoop c ps st) = (pre @ ps) ! i' \<and>
    (\<forall>j<length (pre @ ps). ColorDistance c ((pre @ ps) ! i') \<le> ColorDistance c ((pre @ ps) ! j)) \<and>
    (\<forall>j<i'. ColorDistance c ((pre @ ps) ! i') < ColorDistance c ((pre @ ps) ! j))"
  using assms
proof (induction ps arbitrary: pre i st)
  case Nil
  then show ?case by auto
next
  case (Cons p ps)
  let ?pre = "pre @ [p]"
  have app: "?pre @ ps = pre @ p # ps" by simp
  show ?case
  proof (cases "ColorDistance c p < snd st")
    case True
    let ?st = "(p, ColorDistance c p)"
    have 1: "length pre < length ?pre" by simp
    have 2: "fst ?st = ?pre ! length pre" by simp
    have 3: "snd ?st = ColorDistance c (?pre ! length pre)" by simp
    have 4: "\<forall>j<length ?pre. ColorDistance c (?pre ! length pre) \<le> ColorDistance c (?pre ! j)"
    proof (intro allI impI)
      fix j assume "j < length ?pre"
      then consider "j < length pre" | "j = length pre" by fastforce
      then show "ColorDistance c (?pre ! length pre) \<le> ColorDistance c (?pre ! j)"
      proof cases
        case 1
        with Cons.prems(3,4) True show ?thesis by (fastforce simp: nth_append)
      next
        case 2
        then show ?thesis by simp
      qed
    qed
    have 5: "\<forall>j<length pre. ColorDistance c (?pre ! length pre) < ColorDistance c (?pre ! j)"
      using Cons.prems(3,4) True by (fastforce simp: nth_append)
    from Cons.IH [OF 1 2 3 4 5] True show ?thesis
      unfolding app by (simp add: Let_def)
  next
    case False
    have 1: "i < length ?pre" using Cons.prems(1) by simp
    have 2: "fst st = ?pre ! i" using Cons.prems(1,2) by (simp add: nth_append)
    have 3: "snd st = ColorDistance c (?pre ! i)" using Cons.prems(1,3) by (simp add: nth_append)
    have 4: "\<forall>j<length ?pre. ColorDistance c (?pre ! i) \<le> ColorDistance c (?pre ! j)"
    proof (intro allI impI)
      fix j assume "j < length ?pre"
      then consider "j < length pre" | "j = length pre" by fastforce
      then show "ColorDistance c (?pre ! i) \<le> ColorDistance c (?pre ! j)"
      proof cases
        case 1
        with Cons.prems(1,4) show ?thesis by (simp add: nth_append)
      next
        case 2
        with Cons.prems(1,3) False show ?thesis by (simp add: nth_append)
      qed
    qed
    have 5: "\<forall>j<i. ColorDistance c (?pre ! i) < ColorDistance c (?pre ! j)"
      using Cons.prems(1,5) by (simp add: nth_append)
    from Cons.IH [OF 1 2 3 4 5] False show ?thesis
      unfolding app by (simp add: Let_def)
  qed
qed

lemma NearestColor_first_min:
  assumes "palette \<noteq> []"
  shows "\<exists>i<length palette. NearestColor c palette = Inr (palette ! i) \<and>
    (\<forall>j<length palette. ColorDistance c (palette ! i) \<le> ColorDistance c (palette ! j)) \<and>
    (\<forall>j<i. ColorDistance c (palette ! i) < ColorDistance c (palette ! j))"
proof -
  from assms obtain p0 rest where pal: "palette = p0 # rest" by (cases palette) auto
  have "\<exists>i'<length ([p0] @ rest).
      fst (nearestLoop c rest (p0, ColorDistance c p0)) = ([p0] @ rest) ! i' \<and>
      (\<forall>j<length ([p0] @ rest). ColorDistance c (([p0] @ rest) ! i') \<le> ColorDistance c (([p0] @ rest) ! j)) \<and>
      (\<forall>j<i'. ColorDistance c (([p0] @ rest) ! i') < ColorDistance c (([p0] @ rest) ! j))"
    by (rule nearestLoop_first_min [where i = 0]) simp_all
  then show ?thesis by (simp add: pal NearestColor_def)
qed

text \<open>
  Claim C4.  For every non-empty palette and every colour \<open>c\<close>, \<open>NearestColor\<close> returns
  the palette's element at an index \<open>i\<close> such that no entry is closer to \<open>c\<close> than entry
  \<open>i\<close> and every entry before \<open>i\<close> is strictly farther: the first entry, in scan order,
  of minimal distance.  The distance is \<open>sqrt (dR * dR + dG * dG + dB * dB)\<close> over the
  differences of the R, G and B channels; the alpha channels do not occur in it.
\<close>

theorem NearestColor_nearest:
  assumes "palette \<noteq> []"
  shows "(\<exists>i<length palette. NearestColor c palette = Inr (palette ! i) \<and>
      (\<forall>j<length palette. ColorDistance c (palette ! i) \<le> ColorDistance c (palette ! j)) \<and>
      (\<forall>j<i. ColorDistance c (palette ! i) < ColorDistance c (palette ! j))) \<and>
    (\<forall>p. ColorDistance c p =
      sqrt ((real (unat (R c)) - real (unat (R p))) * (real (unat (R c)) - real (unat (R p))) +
            (real (unat (G c)) - real (unat (G p))) * (real (unat (G c)) - real (unat (G p))) +
            (real (unat (B c)) - real (unat (B p))) * (real (unat (B c)) - real (unat (B p)))))"
  using NearestColor_first_min [OF assms, of c] by (simp add: ColorDistance_def Let_def)

theorem NearestColor_nearest_witness:
  "[white, black, white, black] \<noteq> [] \<and>
   NearestColor \<lparr>R = 100, G = 100, B = 100, A = 7\<rparr> [white, black, white, black] = Inr black \<and>
   (\<exists>i<length [white, black, white, black].
      NearestColor \<lparr>R = 100, G = 100, B = 100, A = 7\<rparr> [white, black, white, black] =
        Inr ([white, black, white, black] ! i))"
proof -
  let ?pal = "[white, black, white, black]"
  let ?q = "\<lparr>R = 100, G = 100, B = 100, A = 7\<rparr>"
  have ne: "?pal \<noteq> []" by simp
  have ev: "NearestColor ?q ?pal = Inr black"
    by (simp add: NearestColor_def ColorDistance_def black_def white_def)
  from NearestColor_nearest [OF ne, of ?q]
  have "\<exists>i<length ?pal. NearestColor ?q ?pal = Inr (?pal ! i)" by blast
  with ne ev show ?thesis by blast
qed

section \<open>Colour addition\<close>

lemma Add_channels:
  "R (Add c1 c2) = R c1 + R c2 \<and> G (Add c1 c2) = G c1 + G c2 \<and> B (Add c1 c2) = B c1 + B c2 \<and>
   A (Add c1 c2) = 255"
proof -
  have "ClampU8 w 0 255 = w" for w
  proof -
    have "unat w < 2 ^ LENGTH(8)" by (rule unsigned_less)
    then have "\<not> (255 :: 8 word) < w" by (simp add: word_less_nat_alt)
    then show ?thesis by (simp add: ClampU8_def)
  qed
  then show ?thesis by (simp add: Add_def)
qed

text \<open>
  Claim C9 asks for a saturating sum: each channel of \<open>Add c1 c2\<close> should be the smaller
  of \<open>c1.channel + c2.channel\<close> and 255.  The code adds the two \<open>uint8\<close> channels first,
  which wraps modulo 256, and only then calls \<open>ClampU8\<close> with the bounds 0 and 255, which
  no \<open>uint8\<close> can violate.  For the red channels 200 and 100 the result is 44, not 255.
\<close>

theorem Add_wraps_at_200_100:
  "Add \<lparr>R = 200, G = 255, B = 10, A = 255\<rparr> \<lparr>R = 100, G = 1, B = 20, A = 255\<rparr> =
     \<lparr>R = 44, G = 0, B = 30, A = 255\<rparr>"
  by (simp add: Add_def ClampU8_def)


section \<open>Palette: lemmas\<close>

lemma unat_u8_le: "real (unat (w :: 8 word)) \<le> 255"
proof -
  have "unat w < 2 ^ LENGTH(8)" by (rule unsigned_less)
  then have "unat w \<le> 255" by simp
  then have "real (unat w) \<le> real 255" by (simp only: of_nat_le_iff)
  then show ?thesis by simp
qed

lemma meanLoop_bounds:
  assumes "\<forall>j\<in>set js. 0 \<le> j \<and> j < int (length pixels)"
  shows "\<exists>r' g' b'. meanLoop pixels js (r, g, b) = Inr (r', g', b') \<and>
    r \<le> r' \<and> r' \<le> r + 255 * real (length js) \<and>
    g \<le> g' \<and> g' \<le> g + 255 * real (length js) \<and>
    b \<le> b' \<and> b' \<le> b + 255 * real (length js)"
  using assms
proof (induction js arbitrary: r g b)
  case Nil
  then show ?case by simp
next
  case (Cons j js)
  from Cons.prems have j: "index_at pixels j = Inr (pixels ! nat j)"
    by (simp add: index_at_def)
  let ?p = "pixels ! nat j"
  from Cons.prems have "\<forall>j\<in>set js. 0 \<le> j \<and> j < int (length pixels)" by simp
  from Cons.IH [OF this, of "r + real (unat (R ?p))" "g + real (unat (G ?p))" "b + real (unat (B ?p))"]
  obtain r' g' b' where
    run: "meanLoop pixels js (r + real (unat (R ?p)), g + real (unat (G ?p)), b + real (unat (B ?p)))
      = Inr (r', g', b')"
    and bnd: "r + real (unat (R ?p)) \<le> r'" "r' \<le> r + real (unat (R ?p)) + 255 * real (length js)"
      "g + real (unat (G ?p)) \<le> g'" "g' \<le> g + real (unat (G ?p)) + 255 * real (length js)"
      "b + real (unat (B ?p)) \<le> b'" "b' \<le> b + real (unat (B ?p)) + 255 * real (length js)"
    by blast
  have "meanLoop pixels (j # js) (r, g, b) = Inr (r', g', b')"
    using j run by simp
  moreover have "r \<le> r'" "g \<le> g'" "b \<le> b'" using bnd by linarith+
  moreover have "r' \<le> r + 255 * real (length (j # js))"
    using bnd(2) unat_u8_le [of "R ?p"] by (simp add: algebra_simps)
  moreover have "g' \<le> g + 255 * real (length (j # js))"
    using bnd(4) unat_u8_le [of "G ?p"] by (simp add: algebra_simps)
  moreover have "b' \<le> b + 255 * real (length (j # js))"
    using bnd(6) unat_u8_le [of "B ?p"] by (simp add: algebra_simps)
  ultimately show ?case by blast
qed

lemma meanLoop_sums:
  assumes "\<forall>j\<in>set js. 0 \<le> j \<and> j < int (length pixels)"
  shows "meanLoop pixels js (r, g, b) =
    Inr (r + (\<Sum>j\<leftarrow>js. real (unat (R (pixels ! nat j)))),
         g + (\<Sum>j\<leftarrow>js. real (unat (G (pixels ! nat j)))),
         b + (\<Sum>j\<leftarrow>js. real (unat (B (pixels ! nat j)))))"
  using assms
  by (induction js arbitrary: r g b) (simp_all add: index_at_def add.assoc)

lemma mean_quotient_range:
  fixes s n :: real
  assumes "0 \<le> s" and "s \<le> 255 * n" and "0 < n"
  shows "0 \<le> s / n \<and> s / n \<le> 255"
  using assms by (simp add: divide_simps mult.commute)

lemma MeanColorOfRange_value:
  assumes "0 \<le> begin" and "begin < end" and "end \<le> int (length pixels)"
  shows "MeanColorOfRange pixels begin end =
    Inr \<lparr>R = word_of_int \<lfloor>(\<Sum>j\<leftarrow>[begin..end - 1]. real (unat (R (pixels ! nat j)))) / real_of_int (end - begin)\<rfloor>,
         G = word_of_int \<lfloor>(\<Sum>j\<leftarrow>[begin..end - 1]. real (unat (G (pixels ! nat j)))) / real_of_int (end - begin)\<rfloor>,
         B = word_of_int \<lfloor>(\<Sum>j\<leftarrow>[begin..end - 1]. real (unat (B (pixels ! nat j)))) / real_of_int (end - begin)\<rfloor>,
         A = 255\<rparr>"
proof -
  have idx: "\<forall>j\<in>set [begin..end - 1]. 0 \<le> j \<and> j < int (length pixels)"
    using assms by auto
  have len: "real (length [begin..end - 1]) = real_of_int (end - begin)"
    using assms(2) by simp
  let ?r = "\<Sum>j\<leftarrow>[begin..end - 1]. real (unat (R (pixels ! nat j)))"
  let ?g = "\<Sum>j\<leftarrow>[begin..end - 1]. real (unat (G (pixels ! nat j)))"
  let ?b = "\<Sum>j\<leftarrow>[begin..end - 1]. real (unat (B (pixels ! nat j)))"
  have run: "meanLoop pixels [begin..end - 1] (0, 0, 0) = Inr (?r, ?g, ?b)"
    using meanLoop_sums [OF idx, of 0 0 0] by simp
  from meanLoop_bounds [OF idx, of 0 0 0] run
  have bnd: "0 \<le> ?r" "?r \<le> 255 * real_of_int (end - begin)"
      "0 \<le> ?g" "?g \<le> 255 * real_of_int (end - begin)"
      "0 \<le> ?b" "?b \<le> 255 * real_of_int (end - begin)"
    unfolding len by auto
  from assms(2) have n: "0 < real_of_int (end - begin)" by simp
  note q = mean_quotient_range [OF _ _ n]
  from q [OF bnd(1,2)] q [OF bnd(3,4)] q [OF bnd(5,6)] n run
  show ?thesis
    by (simp add: MeanColorOfRange_def uint8_of_float64_in_range Let_def)
qed

lemma MeanColorOfRange_returns:
  assumes "0 \<le> begin" and "begin < end" and "end \<le> int (length pixels)"
  shows "\<exists>c. MeanColorOfRange pixels begin end = Inr c"
  using MeanColorOfRange_value [OF assms] by simp

lemma paletteLoop_entries:
  assumes "0 < bucketSize"
    and "\<forall>i\<in>set is. 0 \<le> i \<and> i * bucketSize + bucketSize \<le> int (length pixels)"
  shows "\<exists>p. paletteLoop pixels bucketSize is palette = Inr p \<and>
    length p = length palette + length is \<and>
    (\<forall>t<length palette. p ! t = palette ! t) \<and>
    (\<forall>t<length is. MeanColorOfRange pixels (is ! t * bucketSize) (is ! t * bucketSize + bucketSize) =
        Inr (p ! (length palette + t)))"
  using assms(2)
proof (induction "is" arbitrary: palette)
  case Nil
  then show ?case by simp
next
  case (Cons i rest)
  let ?begin = "i * bucketSize"
  from Cons.prems have i: "0 \<le> i" "?begin + bucketSize \<le> int (length pixels)" by simp_all
  then have fin: "ClampAboveInt (?begin + bucketSize) (int (length pixels)) = ?begin + bucketSize"
    by (simp add: ClampAboveInt_def)
  from i(1) assms(1) have "0 \<le> ?begin" by simp
  moreover from assms(1) have "?begin < ?begin + bucketSize" by simp
  ultimately obtain c where c: "MeanColorOfRange pixels ?begin (?begin + bucketSize) = Inr c"
    using MeanColorOfRange_returns i(2) by blast
  from Cons.prems have "\<forall>i\<in>set rest. 0 \<le> i \<and> i * bucketSize + bucketSize \<le> int (length pixels)"
    by simp
  from Cons.IH [OF this, of "palette @ [c]"] obtain p where
    run: "paletteLoop pixels bucketSize rest (palette @ [c]) = Inr p"
    and len: "length p = length (palette @ [c]) + length rest"
    and old: "\<forall>t<length (palette @ [c]). p ! t = (palette @ [c]) ! t"
    and new: "\<forall>t<length rest.
      MeanColorOfRange pixels (rest ! t * bucketSize) (rest ! t * bucketSize + bucketSize) =
        Inr (p ! (length (palette @ [c]) + t))"
    by blast
  have "paletteLoop pixels bucketSize (i # rest) palette = Inr p"
    using c run fin by (simp add: Let_def)
  moreover have "length p = length palette + length (i # rest)" using len by simp
  moreover have "\<forall>t<length palette. p ! t = palette ! t"
    using old by (simp add: nth_append)
  moreover have "\<forall>t<length (i # rest).
      MeanColorOfRange pixels ((i # rest) ! t * bucketSize) ((i # rest) ! t * bucketSize + bucketSize) =
        Inr (p ! (length palette + t))"
  proof (intro allI impI)
    fix t assume t: "t < length (i # rest)"
    show "MeanColorOfRange pixels ((i # rest) ! t * bucketSize) ((i # rest) ! t * bucketSize + bucketSize) =
        Inr (p ! (length palette + t))"
    proof (cases t)
      case 0
      from old have "p ! length palette = c" by simp
      with 0 c show ?thesis by simp
    next
      case (Suc t')
      with t new show ?thesis by simp
    qed
  qed
  ultimately show ?case by blast
qed

lemma go_quot_nonneg: "0 \<le> a \<Longrightarrow> 0 < b \<Longrightarrow> go_quot a b = a div b"
  by (cases "a = 0") (simp_all add: go_quot_def)

lemma bucket_end_in_bounds:
  fixes n est i :: int
  assumes "0 < est" and "0 \<le> i" and "i < est" and "0 \<le> n"
  shows "i * (n div est) + n div est \<le> n"
proof -
  have q: "0 \<le> n div est" using assms(1,4) by (simp add: pos_imp_zdiv_nonneg_iff)
  have "i * (n div est) + n div est = (i + 1) * (n div est)" by (simp add: algebra_simps)
  also have "\<dots> \<le> est * (n div est)"
    using assms(3) q by (intro mult_right_mono) simp_all
  also have "\<dots> \<le> n"
  proof -
    have "est * (n div est) + n mod est = n" by simp
    moreover have "0 \<le> n mod est" using assms(1) by simp
    ultimately show ?thesis by linarith
  qed
  finally show ?thesis .
qed

text \<open>
  What \<open>PaletteFromImage\<close> computes for an image with pixels: entry \<open>i\<close> is the mean of
  the bucket \<open>[i * bucketSize, i * bucketSize + bucketSize)\<close>, for every
  \<open>i < estimatedPaletteSize\<close>, and the buckets cover the first
  \<open>len(pixels) - len(pixels) mod estimatedPaletteSize\<close> pixels of the sorted sequence.
\<close>

lemma PaletteFromImage_buckets:
  assumes "1 \<le> pixelCount img"
  shows "\<exists>p. PaletteFromImage img k = Inr p \<and>
    int (length p) = min (max k 2) (pixelCount img) \<and>
    (\<forall>i<length p.
       MeanColorOfRange (RedSortedImagePixels img)
         (int i * (pixelCount img div int (length p)))
         (int i * (pixelCount img div int (length p)) + pixelCount img div int (length p)) =
       Inr (p ! i)) \<and>
    int (length p) * (pixelCount img div int (length p)) =
      pixelCount img - pixelCount img mod int (length p)"
proof -
  define pixels where "pixels = RedSortedImagePixels img"
  define n where "n = int (length pixels)"
  define est where "est = ClampAboveInt (ClampBelowInt k 2) n"
  define bs where "bs = go_quot n est"
  from assms have n: "1 \<le> n" by (simp add: n_def pixels_def pixelCount_def)
  have pc: "pixelCount img = n" by (simp add: n_def pixels_def pixelCount_def)
  have est: "est = min (max k 2) n"
    by (auto simp: est_def ClampAboveInt_def ClampBelowInt_def)
  with n have est1: "1 \<le> est" and estn: "est \<le> n" by auto
  from est1 n have bs: "bs = n div est" by (simp add: bs_def go_quot_nonneg)
  from est1 estn have bs1: "0 < bs"
    unfolding bs by (simp add: pos_imp_zdiv_pos_iff)
  have rng: "\<forall>i\<in>set [0..est - 1]. 0 \<le> i \<and> i * bs + bs \<le> int (length pixels)"
  proof
    fix i assume "i \<in> set [0..est - 1]"
    then have i: "0 \<le> i" "i < est" by auto
    with est1 n have "i * (n div est) + n div est \<le> n"
      by (intro bucket_end_in_bounds) simp_all
    with i(1) show "0 \<le> i \<and> i * bs + bs \<le> int (length pixels)"
      by (simp add: bs n_def)
  qed
  from paletteLoop_entries [OF bs1 rng, of "[]"] obtain p where
    run: "paletteLoop pixels bs [0..est - 1] [] = Inr p"
    and len: "length p = length [0..est - 1]"
    and ent: "\<forall>t<length [0..est - 1].
      MeanColorOfRange pixels ([0..est - 1] ! t * bs) ([0..est - 1] ! t * bs + bs) = Inr (p ! t)"
    by auto
  from len est1 have lp: "int (length p) = est" by simp
  from est1 have "est \<noteq> 0" by simp
  then have "PaletteFromImage img k = Inr p"
    using run
    by (simp add: PaletteFromImage_def Let_def pixels_def [symmetric] n_def [symmetric]
        est_def [symmetric] bs_def [symmetric])
  moreover have "int (length p) = min (max k 2) (pixelCount img)"
    using lp est pc by simp
  moreover have "\<forall>i<length p.
       MeanColorOfRange (RedSortedImagePixels img)
         (int i * (pixelCount img div int (length p)))
         (int i * (pixelCount img div int (length p)) + pixelCount img div int (length p)) =
       Inr (p ! i)"
  proof (intro allI impI)
    fix i assume i: "i < length p"
    with lp have "0 + int i \<le> est - 1" by simp
    then have "[0..est - 1] ! i = 0 + int i" by (rule nth_upto)
    moreover from ent i len
    have "MeanColorOfRange pixels ([0..est - 1] ! i * bs) ([0..est - 1] ! i * bs + bs) = Inr (p ! i)"
      by simp
    ultimately have "MeanColorOfRange pixels (int i * bs) (int i * bs + bs) = Inr (p ! i)"
      by simp
    then show "MeanColorOfRange (RedSortedImagePixels img)
         (int i * (pixelCount img div int (length p)))
         (int i * (pixelCount img div int (length p)) + pixelCount img div int (length p)) =
       Inr (p ! i)"
      unfolding pc lp bs pixels_def .
  qed
  moreover have "int (length p) * (pixelCount img div int (length p)) =
      pixelCount img - pixelCount img mod int (length p)"
    by (simp add: minus_mod_eq_mult_div)
  ultimately show ?thesis by blast
qed

lemma PaletteFromImage_returns:
  assumes "1 \<le> pixelCount img"
  shows "\<exists>p. PaletteFromImage img k = Inr p \<and>
    int (length p) = min (max k 2) (pixelCount img)"
  using PaletteFromImage_buckets [OF assms, of k] by blast

lemma PaletteFromImage_no_pixels:
  assumes "pixelCount img = 0"
  shows "PaletteFromImage img k = Inl DivideByZero"
  using assms by (simp add: PaletteFromImage_def pixelCount_def ClampAboveInt_def ClampBelowInt_def)

section \<open>Raster order and the pixel loop: lemmas\<close>

lemma length_rows: "length (concat (map (\<lambda>y. map (\<lambda>x. (x, y)) xs) ys)) = length ys * length xs"
  by (induction ys) simp_all

lemma distinct_rows:
  "distinct xs \<Longrightarrow> distinct ys \<Longrightarrow> distinct (concat (map (\<lambda>y. map (\<lambda>x. (x, y)) xs) ys))"
  by (induction ys) (auto simp: distinct_map inj_on_def)

lemma length_rasterPoints:
  "length (rasterPoints r) = nat (MaxY r - MinY r) * nat (MaxX r - MinX r)"
  by (simp add: rasterPoints_def length_rows)

lemma distinct_rasterPoints: "distinct (rasterPoints r)"
  by (simp add: rasterPoints_def distinct_rows)

lemma set_rows: "(x, y) \<in> set (concat (map (\<lambda>y. map (\<lambda>x. (x, y)) xs) ys)) \<longleftrightarrow> x \<in> set xs \<and> y \<in> set ys"
  by (induction ys) auto

lemma set_rasterPoints: "(x, y) \<in> set (rasterPoints r) \<longleftrightarrow> inRect r x y"
  unfolding rasterPoints_def set_rows inRect_def by auto

lemma pixelCount_area:
  "pixelCount img =
    int (nat (MaxY (Bounds img) - MinY (Bounds img)) * nat (MaxX (Bounds img) - MinX (Bounds img)))"
  by (simp add: pixelCount_def RedSortedImagePixels_def length_rasterPoints)

lemma pixelCount_pos_iff:
  "1 \<le> pixelCount img \<longleftrightarrow>
    MinX (Bounds img) < MaxX (Bounds img) \<and> MinY (Bounds img) < MaxY (Bounds img)"
  by (auto simp: pixelCount_area simp del: of_nat_mult)

lemma Set_in_rect:
  "inRect (Rect p) x y \<Longrightarrow>
    Rect (Set p x y c) = Rect p \<and> Pix (Set p x y c) = (Pix p)((x, y) := c) \<and>
    Writes (Set p x y c) = (Writes p)((x, y) := Suc (Writes p (x, y)))"
  by (simp add: Set_def)

lemma pixelLoop_result:
  assumes "palette \<noteq> []"
    and "\<forall>(x, y)\<in>set ps. 0 \<le> x \<and> 0 \<le> y \<and> inRect (Rect outImage) x y"
    and "distinct ps"
  shows "\<exists>out. pixelLoop img palette m ps outImage = Inr out \<and> Rect out = Rect outImage \<and>
    (\<forall>x y. (x, y) \<in> set ps \<longrightarrow>
      (\<exists>d. BayerDithering (PixelColor img x y) x y (int (length palette)) m = Inr d \<and>
           NearestColor d palette = Inr (Pix out (x, y))) \<and>
      Writes out (x, y) = Suc (Writes outImage (x, y))) \<and>
    (\<forall>q. q \<notin> set ps \<longrightarrow> Pix out q = Pix outImage q \<and> Writes out q = Writes outImage q)"
  using assms(2,3)
proof (induction ps arbitrary: outImage)
  case Nil
  then show ?case by simp
next
  case (Cons p ps)
  obtain x y where p: "p = (x, y)" by (cases p)
  from Cons.prems(1) p have xy: "0 \<le> x" "0 \<le> y" "inRect (Rect outImage) x y" by auto
  from assms(1) have len: "int (length palette) \<noteq> 0" by simp
  from BayerDithering_returns [OF len xy(1,2)] obtain d where
    d: "BayerDithering (PixelColor img x y) x y (int (length palette)) m = Inr d" by blast
  from NearestColor_first_min [OF assms(1), of d] obtain c where
    c: "NearestColor d palette = Inr c" by blast
  let ?out1 = "Set outImage x y c"
  note s = Set_in_rect [OF xy(3), of c]
  from Cons.prems(1) s have 1: "\<forall>(x, y)\<in>set ps. 0 \<le> x \<and> 0 \<le> y \<and> inRect (Rect ?out1) x y"
    by auto
  from Cons.prems(2) have 2: "distinct ps" and notin: "(x, y) \<notin> set ps" by (simp_all add: p)
  from Cons.IH [OF 1 2] obtain out where
    run: "pixelLoop img palette m ps ?out1 = Inr out"
    and rect: "Rect out = Rect ?out1"
    and inside: "\<forall>x y. (x, y) \<in> set ps \<longrightarrow>
      (\<exists>d. BayerDithering (PixelColor img x y) x y (int (length palette)) m = Inr d \<and>
           NearestColor d palette = Inr (Pix out (x, y))) \<and>
      Writes out (x, y) = Suc (Writes ?out1 (x, y))"
    and outside: "\<forall>q. q \<notin> set ps \<longrightarrow> Pix out q = Pix ?out1 q \<and> Writes out q = Writes ?out1 q"
    by blast
  have "pixelLoop img palette m (p # ps) outImage = Inr out"
    using d c run by (simp add: p Let_def)
  moreover have "Rect out = Rect outImage" using rect s by simp
  moreover have "\<forall>x' y'. (x', y') \<in> set (p # ps) \<longrightarrow>
      (\<exists>d. BayerDithering (PixelColor img x' y') x' y' (int (length palette)) m = Inr d \<and>
           NearestColor d palette = Inr (Pix out (x', y'))) \<and>
      Writes out (x', y') = Suc (Writes outImage (x', y'))"
  proof (intro allI impI)
    fix x' y' assume "(x', y') \<in> set (p # ps)"
    then consider "(x', y') = (x, y)" | "(x', y') \<in> set ps" "(x', y') \<noteq> (x, y)"
      using p by auto
    then show "(\<exists>d. BayerDithering (PixelColor img x' y') x' y' (int (length palette)) m = Inr d \<and>
           NearestColor d palette = Inr (Pix out (x', y'))) \<and>
      Writes out (x', y') = Suc (Writes outImage (x', y'))"
    proof cases
      case 1
      with outside notin s have "Pix out (x', y') = c" "Writes out (x', y') = Suc (Writes outImage (x', y'))"
        by auto
      with 1 d c show ?thesis by auto
    next
      case 2
      with inside s show ?thesis by auto
    qed
  qed
  moreover have "\<forall>q. q \<notin> set (p # ps) \<longrightarrow> Pix out q = Pix outImage q \<and> Writes out q = Writes outImage q"
    using outside s p by auto
  ultimately show ?case by blast
qed

section \<open>Sample evaluations\<close>

lemma RedSortedImagePixels_fiveImage:
  "RedSortedImagePixels fiveImage = [black, black, black, black, white]"
  by (simp add: RedSortedImagePixels_def rasterPoints_def fiveImage_def PixelColor_def upto.simps
      black_def white_def)

lemma RedSortedImagePixels_twoImage:
  "RedSortedImagePixels twoImage = [black, white]"
  by (simp add: RedSortedImagePixels_def rasterPoints_def twoImage_def PixelColor_def upto.simps
      black_def white_def)

lemma RedSortedImagePixels_emptyImage: "RedSortedImagePixels emptyImage = []"
  by (simp add: RedSortedImagePixels_def rasterPoints_def emptyImage_def)

lemma RedSortedImagePixels_shiftedImage: "RedSortedImagePixels shiftedImage = [black]"
  by (simp add: RedSortedImagePixels_def rasterPoints_def shiftedImage_def PixelColor_def upto.simps
      black_def)

lemma PaletteFromImage_twoImage: "PaletteFromImage twoImage 2 = Inr [black, white]"
  by (simp add: PaletteFromImage_def RedSortedImagePixels_twoImage ClampBelowInt_def
      ClampAboveInt_def go_quot_def upto.simps MeanColorOfRange_def index_at_def
      uint8_of_float64_def black_def white_def)

lemma PaletteFromImage_shiftedImage: "PaletteFromImage shiftedImage 2 = Inr [black]"
  by (simp add: PaletteFromImage_def RedSortedImagePixels_shiftedImage ClampBelowInt_def
      ClampAboveInt_def go_quot_def upto.simps MeanColorOfRange_def index_at_def
      uint8_of_float64_def black_def)

section \<open>Palette: length, buckets and faults\<close>

text \<open>
  Claim C2, as the code has it.  For an image without pixels the divisor
  \<open>estimatedPaletteSize\<close> is 0 and the function panics instead of returning an empty
  sequence (\<open>PaletteFromImage_empty_image_panics\<close>).  For every image with at least one
  pixel and every integer \<open>k\<close>, \<open>PaletteFromImage\<close> returns a sequence whose length is
  exactly \<open>min (max k 2) pixelCount\<close>.
\<close>

theorem PaletteFromImage_length:
  assumes "1 \<le> pixelCount img"
  shows "(\<exists>p. PaletteFromImage img k = Inr p \<and>
      int (length p) = min (max k 2) (pixelCount img)) \<and>
    pixelCount img =
      int (nat (MaxY (Bounds img) - MinY (Bounds img)) * nat (MaxX (Bounds img) - MinX (Bounds img)))"
  using PaletteFromImage_returns [OF assms, of k] pixelCount_area [of img] by blast

theorem PaletteFromImage_length_witness:
  "1 \<le> pixelCount fiveImage \<and> pixelCount fiveImage = 5 \<and>
   (\<exists>p. PaletteFromImage fiveImage 7 = Inr p \<and> int (length p) = min (max 7 2) 5)"
proof -
  have n: "pixelCount fiveImage = 5"
    by (simp add: pixelCount_def RedSortedImagePixels_fiveImage)
  then have pos: "1 \<le> pixelCount fiveImage" by simp
  from PaletteFromImage_length [OF pos, of 7] n show ?thesis by simp
qed

theorem PaletteFromImage_empty_image_panics:
  "pixelCount emptyImage = 0 \<and> PaletteFromImage emptyImage 2 = Inl DivideByZero"
  by (simp add: pixelCount_def PaletteFromImage_def RedSortedImagePixels_emptyImage
      ClampBelowInt_def ClampAboveInt_def)

text \<open>
  Claim C3 says that the last bucket runs to the end of the red-sorted sequence, so
  that every pixel is in exactly one bucket.  In the code every bucket, the last one
  included, is \<open>[i * bucketSize, i * bucketSize + bucketSize)\<close>: the clamp of the end
  index to \<open>len(pixels)\<close> never takes effect, because
  \<open>estimatedPaletteSize * bucketSize \<le> len(pixels)\<close>.  The
  \<open>len(pixels) mod estimatedPaletteSize\<close> pixels of largest red value are in no bucket
  (\<open>PaletteFromImage_buckets\<close>), against the comment in the code that the last bucket
  differs in size from the others.  For the row of four black pixels and a white one
  and a palette size of 2 the buckets are \<open>[0, 2)\<close> and \<open>[2, 4)\<close> and both palette
  entries are black; the bucket \<open>[2, 5)\<close> of the claim has the mean \<open>(85, 85, 85)\<close>.
\<close>

theorem PaletteFromImage_drops_remainder:
  "RedSortedImagePixels fiveImage = [black, black, black, black, white] \<and>
   PaletteFromImage fiveImage 2 = Inr [black, black] \<and>
   MeanColorOfRange (RedSortedImagePixels fiveImage) 0 2 = Inr black \<and>
   MeanColorOfRange (RedSortedImagePixels fiveImage) 2 4 = Inr black \<and>
   MeanColorOfRange (RedSortedImagePixels fiveImage) 2 5 = Inr \<lparr>R = 85, G = 85, B = 85, A = 255\<rparr>"
  by (simp add: PaletteFromImage_def RedSortedImagePixels_fiveImage ClampBelowInt_def
      ClampAboveInt_def go_quot_def upto.simps MeanColorOfRange_def index_at_def
      uint8_of_float64_def black_def white_def)

text \<open>
  Claim C10.  When the image has at least one pixel, the divisor
  \<open>estimatedPaletteSize\<close> is at least 1, every index \<open>j\<close> that a bucket \<open>i\<close> reads
  (\<open>begin \<le> j < end\<close>) is inside the pixel slice, and \<open>PaletteFromImage\<close> returns a
  palette.  When the image has no pixel, \<open>estimatedPaletteSize\<close> is 0 and the integer
  division \<open>len(pixels) / estimatedPaletteSize\<close> panics.
\<close>

theorem PaletteFromImage_faults_only_without_pixels:
  "(1 \<le> pixelCount img \<longrightarrow>
      1 \<le> ClampAboveInt (ClampBelowInt k 2) (pixelCount img) \<and>
      (\<exists>p. PaletteFromImage img k = Inr p) \<and>
      (let est = ClampAboveInt (ClampBelowInt k 2) (pixelCount img);
           bucketSize = go_quot (pixelCount img) est
       in \<forall>i j. 0 \<le> i \<and> i < est \<and> i * bucketSize \<le> j \<and>
            j < ClampAboveInt (i * bucketSize + bucketSize) (pixelCount img) \<longrightarrow>
            0 \<le> j \<and> j < pixelCount img)) \<and>
   (pixelCount img = 0 \<longrightarrow>
      ClampAboveInt (ClampBelowInt k 2) (pixelCount img) = 0 \<and>
      PaletteFromImage img k = Inl DivideByZero)"
proof (intro conjI impI)
  assume "pixelCount img = 0"
  then show "ClampAboveInt (ClampBelowInt k 2) (pixelCount img) = 0"
    by (simp add: ClampAboveInt_def ClampBelowInt_def)
  from \<open>pixelCount img = 0\<close> show "PaletteFromImage img k = Inl DivideByZero"
    by (rule PaletteFromImage_no_pixels)
next
  assume n: "1 \<le> pixelCount img"
  then show est1: "1 \<le> ClampAboveInt (ClampBelowInt k 2) (pixelCount img)"
    by (simp add: ClampAboveInt_def ClampBelowInt_def)
  from PaletteFromImage_returns [OF n, of k] show "\<exists>p. PaletteFromImage img k = Inr p" by blast
  define est where "est = ClampAboveInt (ClampBelowInt k 2) (pixelCount img)"
  define bs where "bs = go_quot (pixelCount img) est"
  from est1 n have "bs = pixelCount img div est" by (simp add: bs_def est_def go_quot_nonneg)
  with est1 n have bs0: "0 \<le> bs" by (simp add: est_def pos_imp_zdiv_nonneg_iff)
  have "\<forall>i j. 0 \<le> i \<and> i < est \<and> i * bs \<le> j \<and>
      j < ClampAboveInt (i * bs + bs) (pixelCount img) \<longrightarrow> 0 \<le> j \<and> j < pixelCount img"
  proof (intro allI impI)
    fix i j
    assume h: "0 \<le> i \<and> i < est \<and> i * bs \<le> j \<and> j < ClampAboveInt (i * bs + bs) (pixelCount img)"
    then have "0 \<le> i * bs" using bs0 by simp
    with h have "0 \<le> j" by linarith
    moreover have "ClampAboveInt (i * bs + bs) (pixelCount img) \<le> pixelCount img"
      by (simp add: ClampAboveInt_def)
    with h have "j < pixelCount img" by linarith
    ultimately show "0 \<le> j \<and> j < pixelCount img" ..
  qed
  then show "let est = ClampAboveInt (ClampBelowInt k 2) (pixelCount img);
           bucketSize = go_quot (pixelCount img) est
       in \<forall>i j. 0 \<le> i \<and> i < est \<and> i * bucketSize \<le> j \<and>
            j < ClampAboveInt (i * bucketSize + bucketSize) (pixelCount img) \<longrightarrow>
            0 \<le> j \<and> j < pixelCount img"
    by (simp add: Let_def est_def bs_def)
qed

theorem PaletteFromImage_faults_only_without_pixels_witness:
  "1 \<le> pixelCount twoImage \<and> PaletteFromImage twoImage 2 = Inr [black, white] \<and>
   1 \<le> ClampAboveInt (ClampBelowInt 2 2) (pixelCount twoImage) \<and>
   pixelCount emptyImage = 0 \<and> ClampAboveInt (ClampBelowInt 2 2) (pixelCount emptyImage) = 0 \<and>
   PaletteFromImage emptyImage 2 = Inl DivideByZero"
proof -
  have two: "1 \<le> pixelCount twoImage"
    by (simp add: pixelCount_def RedSortedImagePixels_twoImage)
  have none: "pixelCount emptyImage = 0"
    by (simp add: pixelCount_def RedSortedImagePixels_emptyImage)
  from PaletteFromImage_faults_only_without_pixels [of twoImage 2] two
  have "1 \<le> ClampAboveInt (ClampBelowInt 2 2) (pixelCount twoImage)" by blast
  moreover from PaletteFromImage_faults_only_without_pixels [of emptyImage 2] none
  have "ClampAboveInt (ClampBelowInt 2 2) (pixelCount emptyImage) = 0"
    "PaletteFromImage emptyImage 2 = Inl DivideByZero" by blast+
  ultimately show ?thesis using two none PaletteFromImage_twoImage by blast
qed

section \<open>The pipeline: per-pixel result\<close>

text \<open>
  Claim C1, as the code has it.  \<open>QuantizeImage\<close> does not return for every image: it
  panics with a division by zero for an image without pixels, and with an index out of
  range in \<open>BayerCoefficient\<close> for a pixel at a negative coordinate
  (\<open>QuantizeImage_panics\<close>).  For every image with at least one pixel whose bounds start
  at non-negative coordinates, and every \<open>maxPaletteSize\<close> and \<open>matrixOrder\<close>:
  \<open>PaletteFromImage\<close> returns a palette, built before the pixel loop starts;
  \<open>QuantizeImage\<close> returns an image with the bounds of the input; the colour stored at
  each coordinate \<open>(x, y)\<close> of the bounds is
  \<open>NearestColor (BayerDithering (PixelColor img x y) x y (len palette) matrixOrder) palette\<close>,
  a function of the source pixel, the coordinate and the palette only; and \<open>Set\<close> stores
  exactly once at each coordinate of the bounds and never outside.
\<close>

theorem QuantizeImage_pixels:
  assumes "1 \<le> pixelCount img" and "0 \<le> MinX (Bounds img)" and "0 \<le> MinY (Bounds img)"
  shows "\<exists>palette out. PaletteFromImage img k = Inr palette \<and>
    QuantizeImage img k m = Inr out \<and> Rect out = Bounds img \<and>
    (\<forall>x y. inRect (Bounds img) x y \<longrightarrow>
      (\<exists>d. BayerDithering (PixelColor img x y) x y (int (length palette)) m = Inr d \<and>
           NearestColor d palette = Inr (Pix out (x, y))) \<and>
      Writes out (x, y) = 1) \<and>
    (\<forall>x y. \<not> inRect (Bounds img) x y \<longrightarrow> Writes out (x, y) = 0)"
proof -
  let ?r = "Bounds img"
  from PaletteFromImage_returns [OF assms(1), of k] obtain palette where
    pal: "PaletteFromImage img k = Inr palette"
    and len: "int (length palette) = min (max k 2) (pixelCount img)" by blast
  from len assms(1) have ne: "palette \<noteq> []" by auto
  from assms(1) have dims: "MinX ?r < MaxX ?r" "MinY ?r < MaxY ?r"
    by (simp_all add: pixelCount_pos_iff)
  define out0 where "out0 = \<lparr>Rect = ?r, Pix = (\<lambda>p. \<lparr>R = 0, G = 0, B = 0, A = 0\<rparr>), Writes = (\<lambda>p. 0)\<rparr>"
  from dims have new: "NewRGBA ?r = Inr out0" by (simp add: NewRGBA_def out0_def)
  have pts: "\<forall>(x, y)\<in>set (rasterPoints ?r). 0 \<le> x \<and> 0 \<le> y \<and> inRect (Rect out0) x y"
    using assms(2,3) by (auto simp: set_rasterPoints out0_def inRect_def)
  from pixelLoop_result [OF ne pts distinct_rasterPoints, of img m] obtain out where
    run: "pixelLoop img palette m (rasterPoints ?r) out0 = Inr out"
    and rect: "Rect out = Rect out0"
    and inside: "\<forall>x y. (x, y) \<in> set (rasterPoints ?r) \<longrightarrow>
      (\<exists>d. BayerDithering (PixelColor img x y) x y (int (length palette)) m = Inr d \<and>
           NearestColor d palette = Inr (Pix out (x, y))) \<and>
      Writes out (x, y) = Suc (Writes out0 (x, y))"
    and outside: "\<forall>q. q \<notin> set (rasterPoints ?r) \<longrightarrow>
      Pix out q = Pix out0 q \<and> Writes out q = Writes out0 q"
    by blast
  have "QuantizeImage img k m = Inr out"
    using pal new run by (simp add: QuantizeImage_def)
  moreover have "Rect out = ?r" using rect by (simp add: out0_def)
  moreover have "\<forall>x y. inRect ?r x y \<longrightarrow>
      (\<exists>d. BayerDithering (PixelColor img x y) x y (int (length palette)) m = Inr d \<and>
           NearestColor d palette = Inr (Pix out (x, y))) \<and>
      Writes out (x, y) = 1"
    using inside by (simp add: set_rasterPoints out0_def)
  moreover have "\<forall>x y. \<not> inRect ?r x y \<longrightarrow> Writes out (x, y) = 0"
    using outside by (simp add: set_rasterPoints out0_def)
  ultimately show ?thesis using pal by blast
qed

theorem QuantizeImage_pixels_witness:
  "1 \<le> pixelCount twoImage \<and> 0 \<le> MinX (Bounds twoImage) \<and> 0 \<le> MinY (Bounds twoImage) \<and>
   PaletteFromImage twoImage 2 = Inr [black, white] \<and>
   (\<exists>out. QuantizeImage twoImage 2 2 = Inr out \<and> Rect out = Bounds twoImage \<and>
      Pix out (0, 0) = black \<and> Pix out (1, 0) = white \<and>
      Writes out (0, 0) = 1 \<and> Writes out (1, 0) = 1 \<and> Writes out (2, 0) = 0)"
proof -
  have n: "1 \<le> pixelCount twoImage"
    by (simp add: pixelCount_def RedSortedImagePixels_twoImage)
  have x: "0 \<le> MinX (Bounds twoImage)" and y: "0 \<le> MinY (Bounds twoImage)"
    by (simp_all add: twoImage_def)
  have in0: "inRect (Bounds twoImage) 0 0" and in1: "inRect (Bounds twoImage) 1 0"
    and out2: "\<not> inRect (Bounds twoImage) 2 0"
    by (simp_all add: twoImage_def inRect_def)
  have d0: "BayerDithering (PixelColor twoImage 0 0) 0 0 2 2 = Inr black"
    by (simp add: BayerDithering_def BayerCoefficient_def go_rem_def index_at_def bayerMat_def
      bayerMat2_def uint8_of_float64_def ClampF64_def PixelColor_def twoImage_def black_def
      round_float64_samples)
  have d1: "BayerDithering (PixelColor twoImage 1 0) 1 0 2 2 = Inr white"
    by (simp add: BayerDithering_def BayerCoefficient_def go_rem_def index_at_def bayerMat_def
      bayerMat2_def uint8_of_float64_def ClampF64_def PixelColor_def twoImage_def white_def
      round_float64_samples)
  have n0: "NearestColor black [black, white] = Inr black"
    and n1: "NearestColor white [black, white] = Inr white"
    by (simp_all add: NearestColor_def ColorDistance_def black_def white_def)
  from QuantizeImage_pixels [OF n x y, of 2 2] PaletteFromImage_twoImage
  obtain out where out: "QuantizeImage twoImage 2 2 = Inr out" "Rect out = Bounds twoImage"
    and inside: "\<forall>x y. inRect (Bounds twoImage) x y \<longrightarrow>
      (\<exists>d. BayerDithering (PixelColor twoImage x y) x y (int (length [black, white])) 2 = Inr d \<and>
           NearestColor d [black, white] = Inr (Pix out (x, y))) \<and>
      Writes out (x, y) = 1"
    and outside: "\<forall>x y. \<not> inRect (Bounds twoImage) x y \<longrightarrow> Writes out (x, y) = 0"
    by auto
  from inside [rule_format, OF in0] d0 n0
  have p0: "Pix out (0, 0) = black" "Writes out (0, 0) = 1" by auto
  from inside [rule_format, OF in1] d1 n1
  have p1: "Pix out (1, 0) = white" "Writes out (1, 0) = 1" by auto
  from outside out2 have p2: "Writes out (2, 0) = 0" by blast
  from n x y PaletteFromImage_twoImage out p0 p1 p2 show ?thesis by blast
qed

theorem QuantizeImage_panics:
  "QuantizeImage emptyImage 2 2 = Inl DivideByZero \<and>
   pixelCount shiftedImage = 1 \<and> QuantizeImage shiftedImage 2 2 = Inl IndexOutOfRange"
proof -
  have "PaletteFromImage emptyImage 2 = Inl DivideByZero"
    by (simp add: PaletteFromImage_def RedSortedImagePixels_emptyImage
      ClampBelowInt_def ClampAboveInt_def)
  then have 1: "QuantizeImage emptyImage 2 2 = Inl DivideByZero"
    by (simp add: QuantizeImage_def)
  have 2: "pixelCount shiftedImage = 1"
    by (simp add: pixelCount_def RedSortedImagePixels_shiftedImage)
  have "BayerCoefficient (- 1) (- 1) 2 = Inl IndexOutOfRange"
    by (simp add: BayerCoefficient_def go_rem_def index_at_def bayerMat_def bayerMat2_def)
  moreover have "Bounds shiftedImage = \<lparr>MinX = - 1, MinY = - 1, MaxX = 0, MaxY = 0\<rparr>"
    by (simp add: shiftedImage_def)
  ultimately have 3: "QuantizeImage shiftedImage 2 2 = Inl IndexOutOfRange"
    by (simp add: QuantizeImage_def PaletteFromImage_shiftedImage NewRGBA_def
        rasterPoints_def upto.simps BayerDithering_def)
  from 1 2 3 show ?thesis by simp
qed

end
